theory Spec2Isabelle
  imports Main "HOL-Library.Word" "HOL-Library.Multiset" "HOL-Library.Product_Lexorder"
begin

section \<open>Contexts, events and the copy-on-write scope\<close>

text \<open>
  \<^verbatim>\<open>sdk.Coins\<close> (types/coin.go is not among the sources): a bag of denominated units,
  the multiplicity of a denomination being its amount. \<^verbatim>\<open>Coins.Add\<close> is \<open>+\<close>,
  \<^verbatim>\<open>IsZero\<close> is \<open>= {#}\<close> and \<^verbatim>\<open>IsEqual\<close> is \<open>=\<close>.
\<close>

type_synonym coins = "string multiset"

text \<open>\<^verbatim>\<open>sdk.NewEvent(type, attributes...)\<close>.\<close>

datatype event = Event string "(string \<times> string) list"

text \<open>Go's \<^verbatim>\<open>error\<close>, carried as its text.\<close>

datatype error = Err string

text \<open>
  A value handed to the logger or to \<^verbatim>\<open>fmt.Sprintf\<close> (\<open>LCoins\<close> stands for the
  \<^verbatim>\<open>String()\<close> of the coins).
\<close>

datatype log_value = LNat nat | LStr string | LCoins coins

text \<open>
  A panic: the runtime's on a nil dereference, or \<^verbatim>\<open>panic(fmt.Sprintf(format, args...))\<close>.
\<close>

datatype panic = NilPointerDereference | Panic string "log_value list"

text \<open>
  Modelled from the spec: \<^verbatim>\<open>sdk.Context\<close>, \<^verbatim>\<open>Context.CacheContext\<close> and the
  \<^verbatim>\<open>writeCache\<close> closure it returns (types/context.go is not among the sources).
  A context is what the code reads and writes through: the multistore as this context
  sees it (\<open>store\<close>), the writes made through this context in order (\<open>buffered\<close>), its
  event manager (\<open>events\<close>), the block header's height and time, and the logger's
  output. \<^verbatim>\<open>CacheContext\<close> opens "an isolated, copy-on-write execution scope with its
  own event log": the scope sees the base store, and starts with no buffered write and
  an empty event log. \<^verbatim>\<open>writeCache\<close> merges "all buffered writes into the base
  state": it replays the scope's writes, in order, on the base context. Without
  \<^verbatim>\<open>writeCache\<close> the scope is dropped and nothing of it reaches the base.
\<close>

record 's sdk_context =
  store :: 's
  buffered :: "('s \<Rightarrow> 's) list"
  events :: "event list"
  BlockHeight :: "64 word"
  BlockTime :: nat
  logged :: "(string \<times> (string \<times> log_value) list) list"

definition store_write :: "('s \<Rightarrow> 's) \<Rightarrow> 's sdk_context \<Rightarrow> 's sdk_context" where
  "store_write f ctx = ctx\<lparr>store := f (store ctx), buffered := buffered ctx @ [f]\<rparr>"

definition CacheContext :: "'s sdk_context \<Rightarrow> 's sdk_context" where
  "CacheContext ctx = ctx\<lparr>buffered := [], events := []\<rparr>"

definition writeCache :: "'s sdk_context \<Rightarrow> 's sdk_context \<Rightarrow> 's sdk_context" where
  "writeCache cacheCtx ctx = fold store_write (buffered cacheCtx) ctx"

definition EmitEvent :: "event \<Rightarrow> 's sdk_context \<Rightarrow> 's sdk_context" where
  "EmitEvent e ctx = ctx\<lparr>events := events ctx @ [e]\<rparr>"

definition EmitEvents :: "event list \<Rightarrow> 's sdk_context \<Rightarrow> 's sdk_context" where
  "EmitEvents es ctx = ctx\<lparr>events := events ctx @ es\<rparr>"

definition logger_Info ::
  "string \<Rightarrow> (string \<times> log_value) list \<Rightarrow> 's sdk_context \<Rightarrow> 's sdk_context" where
  "logger_Info m kvs ctx = ctx\<lparr>logged := logged ctx @ [(m, kvs)]\<rparr>"

section \<open>The deferred actions: x/slashing/keeper, file \<^verbatim>\<open>epoch_exec.go\<close>\<close>

text \<open>\<^verbatim>\<open>sdk.Dec\<close>: the underlying integer (the value times \<open>10^18\<close>).\<close>

type_synonym dec = int

record MsgUnjail =
  ValidatorAddr :: string

record SlashEvent =
  Address :: string
  SlashedSoFar :: dec

text \<open>
  The queued actions are \<^verbatim>\<open>sdk.Msg\<close> values; \<open>UnknownAction\<close> stands for every dynamic
  type other than the two the type switch of \<^verbatim>\<open>ExecuteEpoch\<close> names.
\<close>

datatype epoch_action =
  UnjailAction MsgUnjail
| SlashAction SlashEvent
| UnknownAction string

text \<open>
  \<^verbatim>\<open>stakingtypes.ValidatorI\<close>: of the interface the code only calls
  \<^verbatim>\<open>GetConsAddr()\<close>; the field holds what the call returns. A nil interface value is
  \<open>None\<close> of \<open>validatorI option\<close>.
\<close>

record validatorI =
  GetConsAddr :: "error + string"

text \<open>
  The collaborators of the slashing keeper, none of them among the sources, taken as
  parameters: \<^verbatim>\<open>sdk.ValAddressFromBech32\<close>, \<^verbatim>\<open>Keeper.Unjail\<close>, the staking keeper's
  \<^verbatim>\<open>Validator\<close> (nil when there is no validator at the address) and \<^verbatim>\<open>Slash\<close>,
  \<^verbatim>\<open>Dec.RoundInt64\<close> (which panics out of the range of int64) and the constant
  \<^verbatim>\<open>sdk.ValidatorUpdateDelay\<close>.
\<close>

record 's slashing_keeper =
  ValAddressFromBech32 :: "string \<Rightarrow> error + string"
  Unjail :: "'s sdk_context \<Rightarrow> string \<Rightarrow> error option \<times> 's sdk_context"
  Validator :: "'s sdk_context \<Rightarrow> string \<Rightarrow> validatorI option"
  Slash :: "'s sdk_context \<Rightarrow> string \<Rightarrow> 64 word \<Rightarrow> 64 word \<Rightarrow> dec \<Rightarrow> 's sdk_context"
  RoundInt64 :: "dec \<Rightarrow> panic + 64 word"
  ValidatorUpdateDelay :: "64 word"

text \<open>
  Modelled from the spec: the epoch keeper \<^verbatim>\<open>k.ek\<close> (not among the sources), the
  "generic FIFO of queued actions": the queue is the list of the pending actions under
  their keys, in FIFO order; \<^verbatim>\<open>DeleteByKey\<close> removes the entry of a key. \<open>other\<close> is
  the state of every other module.
\<close>

record 'a epoch_store =
  epoch_actions :: "(nat \<times> epoch_action) list"
  other :: 'a

definition DeleteByKey :: "'a epoch_store sdk_context \<Rightarrow> nat \<Rightarrow> 'a epoch_store sdk_context" where
  "DeleteByKey ctx key =
     store_write (\<lambda>s. s\<lparr>epoch_actions := filter (\<lambda>(k', _). k' \<noteq> key) (epoch_actions s)\<rparr>) ctx"

definition ErrBadValidatorAddr :: error where
  "ErrBadValidatorAddr = Err ''validator does not exist for that address''"

definition executeQueuedUnjailMsg ::
  "'s slashing_keeper \<Rightarrow> 's sdk_context \<Rightarrow> MsgUnjail \<Rightarrow> error option \<times> 's sdk_context" where
  "executeQueuedUnjailMsg k ctx msg =
     (case ValAddressFromBech32 k (ValidatorAddr msg) of
        Inl valErr \<Rightarrow> (Some valErr, ctx)
      | Inr valAddr \<Rightarrow>
          (case Unjail k ctx valAddr of
             (Some err, ctx') \<Rightarrow> (Some err, ctx')
           | (None, ctx') \<Rightarrow>
               (None, EmitEvent (Event ''message''
                  [(''module'', ''slashing''), (''sender'', ValidatorAddr msg)]) ctx')))"

text \<open>
  The result is a panic, or what the function returns (the error, nil as \<open>None\<close>)
  with the context as the call left it. The method call on \<open>validator\<close> dereferences
  it: on a nil interface value Go panics.
\<close>

definition executeQueuedSlashEvent ::
  "'s slashing_keeper \<Rightarrow> 's sdk_context \<Rightarrow> SlashEvent \<Rightarrow> panic + (error option \<times> 's sdk_context)" where
  "executeQueuedSlashEvent k ctx msg =
     (let validator = Validator k ctx (Address msg) in
      if validator \<noteq> None then Inr (Some ErrBadValidatorAddr, ctx)
      else
        (case validator of
           None \<Rightarrow> Inl NilPointerDereference
         | Some v \<Rightarrow>
             (case GetConsAddr v of
                Inl err \<Rightarrow> Inr (Some err, ctx)
              | Inr consAddr \<Rightarrow>
                  (let distributionHeight = BlockHeight ctx - ValidatorUpdateDelay k - 1 in
                   case RoundInt64 k (SlashedSoFar msg) of
                     Inl p \<Rightarrow> Inl p
                   | Inr pwr \<Rightarrow>
                       Inr (None, Slash k ctx consAddr distributionHeight pwr
                                    (SlashedSoFar msg))))))"

text \<open>
  How a pass ends: it ran to its end, or it panicked, with the base context as it was
  when the panic was raised.
\<close>

datatype 's outcome = Completed "'s sdk_context" | Panicked panic "'s sdk_context"

text \<open>
  The loop of \<^verbatim>\<open>ExecuteEpoch\<close> over the entries the iterator yields. The unjail
  handler gets the scope \<open>cacheCtx\<close>; the slash handler gets \<open>ctx\<close> itself.
\<close>

fun ExecuteEpoch_loop ::
  "'a epoch_store slashing_keeper \<Rightarrow> (nat \<times> epoch_action) list \<Rightarrow>
   'a epoch_store sdk_context \<Rightarrow> 'a epoch_store outcome" where
  "ExecuteEpoch_loop k [] ctx = Completed ctx"
| "ExecuteEpoch_loop k ((key, msg) # rest) ctx =
     (let cacheCtx = CacheContext ctx in
      case msg of
        UnjailAction m \<Rightarrow>
          (case executeQueuedUnjailMsg k cacheCtx m of
             (None, cacheCtx') \<Rightarrow>
               ExecuteEpoch_loop k rest (DeleteByKey (writeCache cacheCtx' ctx) key)
           | (Some err, cacheCtx') \<Rightarrow>
               ExecuteEpoch_loop k rest (DeleteByKey ctx key))
      | SlashAction m \<Rightarrow>
          (case executeQueuedSlashEvent k ctx m of
             Inl p \<Rightarrow> Panicked p ctx
           | Inr (None, ctx') \<Rightarrow>
               ExecuteEpoch_loop k rest (DeleteByKey (writeCache cacheCtx ctx') key)
           | Inr (Some err, ctx') \<Rightarrow>
               ExecuteEpoch_loop k rest (DeleteByKey ctx' key))
      | UnknownAction t \<Rightarrow>
          Panicked (Panic ''unrecognized %s message type: %T'' [LStr ''slashing'', LStr t]) ctx)"

definition ExecuteEpoch ::
  "'a epoch_store slashing_keeper \<Rightarrow> 'a epoch_store sdk_context \<Rightarrow> 'a epoch_store outcome" where
  "ExecuteEpoch k ctx = ExecuteEpoch_loop k (epoch_actions (store ctx)) ctx"


section \<open>x/gov: data model and keeper\<close>

text \<open>
  Modelled from the spec: the types of x/gov/types (not among the sources). The status
  set is the one of the spec's data model; a proposal has an id, a payload (a content or
  an ordered message list), a status, the end times of its deposit and voting periods,
  its total deposit and its final tally result. \<^verbatim>\<open>types.Proposal\<close> is the proposal whose payload is a content,
  \<^verbatim>\<open>types.ProposalV2\<close> the one whose payload is a list of messages. Times are
  timestamps, proposal ids are \<^verbatim>\<open>uint64\<close> values (no arithmetic is done on them).
\<close>

datatype ProposalStatus =
  StatusDepositPeriod | StatusVotingPeriod | StatusPassed | StatusRejected
| StatusFailed | StatusDropped

record TallyResult =
  TallyYes :: int
  TallyAbstain :: int
  TallyNo :: int
  TallyNoWithVeto :: int

record Content =
  GetTitle :: string
  ProposalRoute :: string
  ContentBody :: string

type_synonym Msg = string

record 'p Proposal =
  ProposalId :: nat
  Payload :: 'p
  Status :: ProposalStatus
  FinalTallyResult :: TallyResult
  TotalDeposit :: coins
  DepositEndTime :: nat
  VotingEndTime :: nat

type_synonym ProposalV1 = "Content Proposal"
type_synonym ProposalV2 = "Msg list Proposal"

record Deposit =
  DepositProposalId :: nat
  Depositor :: string
  Amount :: coins

record Vote =
  VoteProposalId :: nat
  Voter :: string
  VoteOption :: string

record DepositParams =
  MinDeposit :: coins
  MaxDepositPeriod :: nat

record VotingParams =
  VotingPeriod :: nat

record TallyParams =
  Quorum :: dec
  Threshold :: dec
  VetoThreshold :: dec

record ModuleAccount =
  GetAddress :: string
  GetName :: string

datatype hook_call =
  AfterProposalFailedMinDeposit_called nat
| AfterProposalVotingPeriodEnded_called nat

text \<open>
  Modelled from the spec: the state the governance keeper reads and writes through the
  State Access Layer and the Ledger collaborator (x/gov/keeper is not among the
  sources). The two queues are "keyed by (expiry time, id)" and kept in ascending
  order of the key. \<open>burned\<close> and \<open>refunded\<close> log the ledger's \<^verbatim>\<open>burn(coins)\<close> and
  \<^verbatim>\<open>refund(depositor, coins)\<close> calls, each with the deposit it was made for;
  \<open>hook_calls\<close> logs the notifications to the external hooks; \<open>app\<close> is the state of
  the other modules, the one the payload handlers are there to change.
\<close>

record gov_store =
  proposals :: "nat \<rightharpoonup> ProposalV1"
  proposalsV2 :: "nat \<rightharpoonup> ProposalV2"
  deposits :: "Deposit list"
  votes :: "Vote list"
  InactiveProposalQueue :: "(nat \<times> nat) list"
  ActiveProposalQueue :: "(nat \<times> nat) list"
  proposalID :: nat
  depositParams :: DepositParams
  votingParams :: VotingParams
  tallyParams :: TallyParams
  burned :: "Deposit list"
  refunded :: "Deposit list"
  hook_calls :: "hook_call list"
  moduleAccounts :: "ModuleAccount list"
  app :: "string \<rightharpoonup> string"

type_synonym gov_ctx = "gov_store sdk_context"

text \<open>
  The collaborators the keeper hands out, taken as parameters: the Tally Engine (a
  "pure function, no side effects" giving passes, burn-deposit and the tally), the
  router of the content handlers (\<^verbatim>\<open>Handler().GetRoute(route)\<close>), the router of the
  message handlers (\<^verbatim>\<open>Router().Handler(msg)\<close>) and the lookup of the module account
  (nil as \<open>None\<close>). A handler gets a context and the payload, and returns its error
  (nil as \<open>None\<close>) and the context as it left it.
\<close>

record gov_keeper =
  Tally :: "gov_ctx \<Rightarrow> nat \<Rightarrow> bool \<times> bool \<times> TallyResult"
  GetRoute :: "string \<Rightarrow> gov_ctx \<Rightarrow> Content \<Rightarrow> error option \<times> gov_ctx"
  Handler :: "Msg \<Rightarrow> gov_ctx \<Rightarrow> Msg \<Rightarrow> error option \<times> gov_ctx"
  GetGovernanceAccount :: "gov_ctx \<Rightarrow> ModuleAccount option"

record bank_keeper =
  GetAllBalances :: "gov_ctx \<Rightarrow> string \<Rightarrow> coins"

text \<open>
  Modelled from the spec: the Time-Ordered Queue Manager. "insert(key=(time, id)) is
  idempotent"; "remove(key) deletes an entry"; "iterate(cutoff) produces entries with
  key \<open>\<le>\<close> cutoff in strictly ascending (time, id) order", the cutoff-bounded keys
  being collected before the first callback runs. The callback gets the proposal the
  id of the entry resolves to when the entry is reached, and returns whether to stop;
  an entry whose id resolves to no proposal of the iterated kind is passed over.
\<close>

definition queue_insert :: "nat \<times> nat \<Rightarrow> (nat \<times> nat) list \<Rightarrow> (nat \<times> nat) list" where
  "queue_insert key q = (if key \<in> set q then q else insort key q)"

definition InsertInactiveProposalQueue :: "gov_ctx \<Rightarrow> nat \<Rightarrow> nat \<Rightarrow> gov_ctx" where
  "InsertInactiveProposalQueue ctx proposalID' endTime =
     store_write (\<lambda>s. s\<lparr>InactiveProposalQueue :=
        queue_insert (endTime, proposalID') (InactiveProposalQueue s)\<rparr>) ctx"

definition InsertActiveProposalQueue :: "gov_ctx \<Rightarrow> nat \<Rightarrow> nat \<Rightarrow> gov_ctx" where
  "InsertActiveProposalQueue ctx proposalID' endTime =
     store_write (\<lambda>s. s\<lparr>ActiveProposalQueue :=
        queue_insert (endTime, proposalID') (ActiveProposalQueue s)\<rparr>) ctx"

definition RemoveFromActiveProposalQueue :: "gov_ctx \<Rightarrow> nat \<Rightarrow> nat \<Rightarrow> gov_ctx" where
  "RemoveFromActiveProposalQueue ctx proposalID' endTime =
     store_write (\<lambda>s. s\<lparr>ActiveProposalQueue :=
        removeAll (endTime, proposalID') (ActiveProposalQueue s)\<rparr>) ctx"

fun iterate_queue ::
  "(gov_ctx \<Rightarrow> nat \<Rightarrow> 'p option) \<Rightarrow> (gov_ctx \<Rightarrow> 'p \<Rightarrow> bool \<times> gov_ctx) \<Rightarrow>
   (nat \<times> nat) list \<Rightarrow> gov_ctx \<Rightarrow> gov_ctx" where
  "iterate_queue get cb [] ctx = ctx"
| "iterate_queue get cb ((t, proposalID') # keys) ctx =
     (case get ctx proposalID' of
        None \<Rightarrow> iterate_queue get cb keys ctx
      | Some proposal \<Rightarrow>
          (case cb ctx proposal of
             (True, ctx') \<Rightarrow> ctx'
           | (False, ctx') \<Rightarrow> iterate_queue get cb keys ctx'))"

definition GetProposal :: "gov_ctx \<Rightarrow> nat \<Rightarrow> ProposalV1 option" where
  "GetProposal ctx proposalID' = proposals (store ctx) proposalID'"

definition GetProposalV2 :: "gov_ctx \<Rightarrow> nat \<Rightarrow> ProposalV2 option" where
  "GetProposalV2 ctx proposalID' = proposalsV2 (store ctx) proposalID'"

definition due_keys :: "nat \<Rightarrow> (nat \<times> nat) list \<Rightarrow> (nat \<times> nat) list" where
  "due_keys endTime q = filter (\<lambda>(t, proposalID'). t \<le> endTime) q"

definition IterateInactiveProposalsQueue ::
  "gov_ctx \<Rightarrow> nat \<Rightarrow> (gov_ctx \<Rightarrow> ProposalV1 \<Rightarrow> bool \<times> gov_ctx) \<Rightarrow> gov_ctx" where
  "IterateInactiveProposalsQueue ctx endTime cb =
     iterate_queue GetProposal cb (due_keys endTime (InactiveProposalQueue (store ctx))) ctx"

definition IterateActiveProposalsQueue ::
  "gov_ctx \<Rightarrow> nat \<Rightarrow> (gov_ctx \<Rightarrow> ProposalV1 \<Rightarrow> bool \<times> gov_ctx) \<Rightarrow> gov_ctx" where
  "IterateActiveProposalsQueue ctx endTime cb =
     iterate_queue GetProposal cb (due_keys endTime (ActiveProposalQueue (store ctx))) ctx"

definition IterateInactiveProposalsQueueV2 ::
  "gov_ctx \<Rightarrow> nat \<Rightarrow> (gov_ctx \<Rightarrow> ProposalV2 \<Rightarrow> bool \<times> gov_ctx) \<Rightarrow> gov_ctx" where
  "IterateInactiveProposalsQueueV2 ctx endTime cb =
     iterate_queue GetProposalV2 cb (due_keys endTime (InactiveProposalQueue (store ctx))) ctx"

definition IterateActiveProposalsQueueV2 ::
  "gov_ctx \<Rightarrow> nat \<Rightarrow> (gov_ctx \<Rightarrow> ProposalV2 \<Rightarrow> bool \<times> gov_ctx) \<Rightarrow> gov_ctx" where
  "IterateActiveProposalsQueueV2 ctx endTime cb =
     iterate_queue GetProposalV2 cb (due_keys endTime (ActiveProposalQueue (store ctx))) ctx"

text \<open>
  Modelled from the spec: the keeper's writes. \<^verbatim>\<open>DeleteProposal\<close> deletes the proposal
  of the id and, the existence of a queue entry being "tied 1:1 to the owning
  proposal", its queue entries. \<^verbatim>\<open>DeleteAndBurnDeposits\<close> burns each deposit of the
  proposal and deletes it; \<^verbatim>\<open>RefundAndDeleteDeposits\<close> refunds each to its depositor
  and deletes it. A deposit is stored under (proposal id, depositor).
\<close>

definition SetProposal :: "gov_ctx \<Rightarrow> ProposalV1 \<Rightarrow> gov_ctx" where
  "SetProposal ctx proposal =
     store_write (\<lambda>s. s\<lparr>proposals := (proposals s)(ProposalId proposal \<mapsto> proposal)\<rparr>) ctx"

definition SetProposalV2 :: "gov_ctx \<Rightarrow> ProposalV2 \<Rightarrow> gov_ctx" where
  "SetProposalV2 ctx proposal =
     store_write (\<lambda>s. s\<lparr>proposalsV2 := (proposalsV2 s)(ProposalId proposal \<mapsto> proposal)\<rparr>) ctx"

definition DeleteProposal :: "gov_ctx \<Rightarrow> nat \<Rightarrow> gov_ctx" where
  "DeleteProposal ctx proposalID' =
     store_write (\<lambda>s. s\<lparr>
        proposals := (proposals s)(proposalID' := None),
        proposalsV2 := (proposalsV2 s)(proposalID' := None),
        InactiveProposalQueue := filter (\<lambda>(t, i). i \<noteq> proposalID') (InactiveProposalQueue s),
        ActiveProposalQueue := filter (\<lambda>(t, i). i \<noteq> proposalID') (ActiveProposalQueue s)\<rparr>) ctx"

definition GetDeposits :: "gov_ctx \<Rightarrow> nat \<Rightarrow> Deposit list" where
  "GetDeposits ctx proposalID' =
     filter (\<lambda>d. DepositProposalId d = proposalID') (deposits (store ctx))"

definition DeleteAndBurnDeposits :: "gov_ctx \<Rightarrow> nat \<Rightarrow> gov_ctx" where
  "DeleteAndBurnDeposits ctx proposalID' =
     store_write (\<lambda>s. s\<lparr>
        deposits := filter (\<lambda>d. DepositProposalId d \<noteq> proposalID') (deposits s),
        burned := burned s @ filter (\<lambda>d. DepositProposalId d = proposalID') (deposits s)\<rparr>) ctx"

definition RefundAndDeleteDeposits :: "gov_ctx \<Rightarrow> nat \<Rightarrow> gov_ctx" where
  "RefundAndDeleteDeposits ctx proposalID' =
     store_write (\<lambda>s. s\<lparr>
        deposits := filter (\<lambda>d. DepositProposalId d \<noteq> proposalID') (deposits s),
        refunded := refunded s @ filter (\<lambda>d. DepositProposalId d = proposalID') (deposits s)\<rparr>) ctx"

definition SetDeposit :: "gov_ctx \<Rightarrow> Deposit \<Rightarrow> gov_ctx" where
  "SetDeposit ctx deposit =
     store_write (\<lambda>s. s\<lparr>deposits :=
        filter (\<lambda>d. \<not> (DepositProposalId d = DepositProposalId deposit
                        \<and> Depositor d = Depositor deposit)) (deposits s) @ [deposit]\<rparr>) ctx"

definition SetVote :: "gov_ctx \<Rightarrow> Vote \<Rightarrow> gov_ctx" where
  "SetVote ctx vote =
     store_write (\<lambda>s. s\<lparr>votes :=
        filter (\<lambda>v. \<not> (VoteProposalId v = VoteProposalId vote \<and> Voter v = Voter vote))
          (votes s) @ [vote]\<rparr>) ctx"

definition SetProposalID :: "gov_ctx \<Rightarrow> nat \<Rightarrow> gov_ctx" where
  "SetProposalID ctx n = store_write (\<lambda>s. s\<lparr>proposalID := n\<rparr>) ctx"

definition SetDepositParams :: "gov_ctx \<Rightarrow> DepositParams \<Rightarrow> gov_ctx" where
  "SetDepositParams ctx ps = store_write (\<lambda>s. s\<lparr>depositParams := ps\<rparr>) ctx"

definition SetVotingParams :: "gov_ctx \<Rightarrow> VotingParams \<Rightarrow> gov_ctx" where
  "SetVotingParams ctx ps = store_write (\<lambda>s. s\<lparr>votingParams := ps\<rparr>) ctx"

definition SetTallyParams :: "gov_ctx \<Rightarrow> TallyParams \<Rightarrow> gov_ctx" where
  "SetTallyParams ctx ps = store_write (\<lambda>s. s\<lparr>tallyParams := ps\<rparr>) ctx"

definition GetDepositParams :: "gov_ctx \<Rightarrow> DepositParams" where
  "GetDepositParams ctx = depositParams (store ctx)"

definition SetModuleAccount :: "gov_ctx \<Rightarrow> ModuleAccount \<Rightarrow> gov_ctx" where
  "SetModuleAccount ctx acc =
     store_write (\<lambda>s. s\<lparr>moduleAccounts := moduleAccounts s @ [acc]\<rparr>) ctx"

definition AfterProposalFailedMinDeposit :: "gov_ctx \<Rightarrow> nat \<Rightarrow> gov_ctx" where
  "AfterProposalFailedMinDeposit ctx proposalID' =
     store_write (\<lambda>s. s\<lparr>hook_calls :=
        hook_calls s @ [AfterProposalFailedMinDeposit_called proposalID']\<rparr>) ctx"

definition AfterProposalVotingPeriodEnded :: "gov_ctx \<Rightarrow> nat \<Rightarrow> gov_ctx" where
  "AfterProposalVotingPeriodEnded ctx proposalID' =
     store_write (\<lambda>s. s\<lparr>hook_calls :=
        hook_calls s @ [AfterProposalVotingPeriodEnded_called proposalID']\<rparr>) ctx"

text \<open>
  The event types and attributes of x/gov/types/events.go (not among the sources),
  and \<^verbatim>\<open>fmt.Sprintf("%d", n)\<close>, the decimal digits of \<open>n\<close>.
\<close>

definition EventTypeInactiveProposal :: string where
  "EventTypeInactiveProposal = ''inactive_proposal''"

definition EventTypeActiveProposal :: string where
  "EventTypeActiveProposal = ''active_proposal''"

definition AttributeKeyProposalID :: string where
  "AttributeKeyProposalID = ''proposal_id''"

definition AttributeKeyProposalResult :: string where
  "AttributeKeyProposalResult = ''proposal_result''"

definition AttributeValueProposalDropped :: string where
  "AttributeValueProposalDropped = ''proposal_dropped''"

definition AttributeValueProposalPassed :: string where
  "AttributeValueProposalPassed = ''proposal_passed''"

definition AttributeValueProposalRejected :: string where
  "AttributeValueProposalRejected = ''proposal_rejected''"

definition AttributeValueProposalFailed :: string where
  "AttributeValueProposalFailed = ''proposal_failed''"

definition digit :: "nat \<Rightarrow> char" where
  "digit n = ''0123456789'' ! n"

fun fmt_d :: "nat \<Rightarrow> string" where
  "fmt_d n = (if n < 10 then [digit n] else fmt_d (n div 10) @ [digit (n mod 10)])"

declare fmt_d.simps [simp del]

definition error_text :: "error \<Rightarrow> string" where
  "error_text e = (case e of Err s \<Rightarrow> s)"


section \<open>x/gov/abci.go\<close>

text \<open>
  \<^verbatim>\<open>EndBlocker\<close> is four drains, each a callback handed to an iterator of the keeper.
  The two callbacks of the active queue are long; they are given block by block, in
  the order of the source.
\<close>

text \<open>Lines 20-44, the callback of the first drain: a V1 proposal whose deposit period has ended.\<close>

definition inactive_proposal_cb :: "gov_keeper \<Rightarrow> gov_ctx \<Rightarrow> ProposalV1 \<Rightarrow> bool \<times> gov_ctx" where
  "inactive_proposal_cb keeper ctx proposal =
     (let ctx1 = DeleteProposal ctx (ProposalId proposal);
          ctx2 = DeleteAndBurnDeposits ctx1 (ProposalId proposal);
          ctx3 = AfterProposalFailedMinDeposit ctx2 (ProposalId proposal);
          ctx4 = EmitEvent (Event EventTypeInactiveProposal
                   [(AttributeKeyProposalID, fmt_d (ProposalId proposal)),
                    (AttributeKeyProposalResult, AttributeValueProposalDropped)]) ctx3;
          ctx5 = logger_Info ''proposal did not meet minimum deposit; deleted''
                   [(''proposal'', LNat (ProposalId proposal)),
                    (''title'', LStr (GetTitle (Payload proposal))),
                    (''min_deposit'', LCoins (MinDeposit (GetDepositParams ctx4))),
                    (''total_deposit'', LCoins (TotalDeposit proposal))] ctx4
      in (False, ctx5))"

text \<open>Lines 52-56 (and 149-153): the deposits are burned or refunded, as the tally says.\<close>

definition settle_deposits :: "gov_ctx \<Rightarrow> nat \<Rightarrow> bool \<Rightarrow> gov_ctx" where
  "settle_deposits ctx proposalID' burnDeposits =
     (if burnDeposits then DeleteAndBurnDeposits ctx proposalID'
      else RefundAndDeleteDeposits ctx proposalID')"

text \<open>
  Lines 59-83, the branch of a V1 proposal that passes: the content handler runs in
  the scope \<open>cacheCtx\<close>; on nil the scope's events are re-emitted on \<open>ctx\<close> and
  \<^verbatim>\<open>writeCache()\<close> is called, on an error neither is. The result is the context, the
  proposal with its new status, \<open>tagValue\<close> and \<open>logMsg\<close>.
\<close>

definition execute_content ::
  "gov_keeper \<Rightarrow> gov_ctx \<Rightarrow> ProposalV1 \<Rightarrow> gov_ctx \<times> ProposalV1 \<times> string \<times> string" where
  "execute_content keeper ctx proposal =
     (let handler = GetRoute keeper (ProposalRoute (Payload proposal));
          cacheCtx = CacheContext ctx
      in case handler cacheCtx (Payload proposal) of
           (None, cacheCtx') \<Rightarrow>
             (writeCache cacheCtx' (EmitEvents (events cacheCtx') ctx),
              proposal\<lparr>Status := StatusPassed\<rparr>,
              AttributeValueProposalPassed, ''passed'')
         | (Some err, cacheCtx') \<Rightarrow>
             (ctx, proposal\<lparr>Status := StatusFailed\<rparr>,
              AttributeValueProposalFailed,
              ''passed, but failed on execution: '' @ error_text err))"

text \<open>Lines 90-112: the proposal is stored, unqueued, notified, logged and announced.\<close>

definition conclude_proposal ::
  "gov_ctx \<Rightarrow> ProposalV1 \<Rightarrow> TallyResult \<Rightarrow> string \<Rightarrow> string \<Rightarrow> bool \<times> gov_ctx" where
  "conclude_proposal ctx proposal tallyResults tagValue logMsg =
     (let proposal' = proposal\<lparr>FinalTallyResult := tallyResults\<rparr>;
          ctx1 = SetProposal ctx proposal';
          ctx2 = RemoveFromActiveProposalQueue ctx1 (ProposalId proposal') (VotingEndTime proposal');
          ctx3 = AfterProposalVotingPeriodEnded ctx2 (ProposalId proposal');
          ctx4 = logger_Info ''proposal tallied''
                   [(''proposal'', LNat (ProposalId proposal')),
                    (''title'', LStr (GetTitle (Payload proposal'))),
                    (''result'', LStr logMsg)] ctx3;
          ctx5 = EmitEvent (Event EventTypeActiveProposal
                   [(AttributeKeyProposalID, fmt_d (ProposalId proposal')),
                    (AttributeKeyProposalResult, tagValue)]) ctx4
      in (False, ctx5))"

text \<open>Lines 47-113, the callback of the second drain: a V1 proposal whose voting period has ended.\<close>

definition active_proposal_cb :: "gov_keeper \<Rightarrow> gov_ctx \<Rightarrow> ProposalV1 \<Rightarrow> bool \<times> gov_ctx" where
  "active_proposal_cb keeper ctx proposal =
     (case Tally keeper ctx (ProposalId proposal) of
        (passes, burnDeposits, tallyResults) \<Rightarrow>
          (let ctx1 = settle_deposits ctx (ProposalId proposal) burnDeposits;
               (ctx2, proposal', tagValue, logMsg) =
                 (if passes then execute_content keeper ctx1 proposal
                  else (ctx1, proposal\<lparr>Status := StatusRejected\<rparr>,
                        AttributeValueProposalRejected, ''rejected''))
           in conclude_proposal ctx2 proposal' tallyResults tagValue logMsg))"

text \<open>Lines 118-141, the callback of the third drain: a V2 proposal whose deposit period has ended.\<close>

definition inactive_proposal_cb_V2 :: "gov_keeper \<Rightarrow> gov_ctx \<Rightarrow> ProposalV2 \<Rightarrow> bool \<times> gov_ctx" where
  "inactive_proposal_cb_V2 keeper ctx proposal =
     (let ctx1 = DeleteProposal ctx (ProposalId proposal);
          ctx2 = DeleteAndBurnDeposits ctx1 (ProposalId proposal);
          ctx3 = AfterProposalFailedMinDeposit ctx2 (ProposalId proposal);
          ctx4 = EmitEvent (Event EventTypeInactiveProposal
                   [(AttributeKeyProposalID, fmt_d (ProposalId proposal)),
                    (AttributeKeyProposalResult, AttributeValueProposalDropped)]) ctx3;
          ctx5 = logger_Info ''proposal did not meet minimum deposit; deleted''
                   [(''proposal'', LNat (ProposalId proposal)),
                    (''min_deposit'', LCoins (MinDeposit (GetDepositParams ctx4))),
                    (''total_deposit'', LCoins (TotalDeposit proposal))] ctx4
      in (False, ctx5))"

text \<open>
  Lines 168-174, the loop over the messages of a V2 proposal. Its state is the loop
  variable \<open>idx\<close> and the scope the handlers run in; \<open>i\<close> is the index of the next
  message. The error a handler returns is bound by
  \<^verbatim>\<open>_, err := handler(cacheCtx, msg)\<close> to a variable \<open>err\<close> of the loop body, the one the
  \<^verbatim>\<open>break\<close> test reads; nothing is assigned to the \<open>err\<close> declared before the loop.
\<close>

fun messages_loop :: "gov_keeper \<Rightarrow> Msg list \<Rightarrow> nat \<Rightarrow> nat \<Rightarrow> gov_ctx \<Rightarrow> nat \<times> gov_ctx" where
  "messages_loop keeper [] i idx cacheCtx = (idx, cacheCtx)"
| "messages_loop keeper (msg # rest) i idx cacheCtx =
     (let handler = Handler keeper msg in
      case handler cacheCtx msg of
        (Some err, cacheCtx') \<Rightarrow> (i, cacheCtx')
      | (None, cacheCtx') \<Rightarrow> messages_loop keeper rest (Suc i) i cacheCtx')"

text \<open>
  Lines 161-193, the branch of a V2 proposal that passes. \<open>err\<close> is the variable
  declared before the loop, nil when the test after the loop reads it.
\<close>

definition execute_messages ::
  "gov_keeper \<Rightarrow> gov_ctx \<Rightarrow> ProposalV2 \<Rightarrow> gov_ctx \<times> ProposalV2 \<times> string \<times> string" where
  "execute_messages keeper ctx proposal =
     (let cacheCtx = CacheContext ctx;
          messages = Payload proposal;
          err = (None :: error option);
          (idx, cacheCtx') = messages_loop keeper messages 0 0 cacheCtx
      in case err of
           None \<Rightarrow>
             (writeCache cacheCtx' (EmitEvents (events cacheCtx') ctx),
              proposal\<lparr>Status := StatusPassed\<rparr>,
              AttributeValueProposalPassed, ''passed'')
         | Some e \<Rightarrow>
             (ctx, proposal\<lparr>Status := StatusFailed\<rparr>,
              AttributeValueProposalFailed,
              ''passed, but msg '' @ fmt_d idx @ '' failed on execution: '' @ error_text e))"

text \<open>Lines 200-221: the V2 proposal is stored, unqueued, notified, logged and announced.\<close>

definition conclude_proposal_V2 ::
  "gov_ctx \<Rightarrow> ProposalV2 \<Rightarrow> TallyResult \<Rightarrow> string \<Rightarrow> string \<Rightarrow> bool \<times> gov_ctx" where
  "conclude_proposal_V2 ctx proposal tallyResults tagValue logMsg =
     (let proposal' = proposal\<lparr>FinalTallyResult := tallyResults\<rparr>;
          ctx1 = SetProposalV2 ctx proposal';
          ctx2 = RemoveFromActiveProposalQueue ctx1 (ProposalId proposal') (VotingEndTime proposal');
          ctx3 = AfterProposalVotingPeriodEnded ctx2 (ProposalId proposal');
          ctx4 = logger_Info ''proposal tallied''
                   [(''proposal'', LNat (ProposalId proposal')),
                    (''results'', LStr logMsg)] ctx3;
          ctx5 = EmitEvent (Event EventTypeActiveProposal
                   [(AttributeKeyProposalID, fmt_d (ProposalId proposal')),
                    (AttributeKeyProposalResult, tagValue)]) ctx4
      in (False, ctx5))"

text \<open>Lines 144-222, the callback of the fourth drain: a V2 proposal whose voting period has ended.\<close>

definition active_proposal_cb_V2 :: "gov_keeper \<Rightarrow> gov_ctx \<Rightarrow> ProposalV2 \<Rightarrow> bool \<times> gov_ctx" where
  "active_proposal_cb_V2 keeper ctx proposal =
     (case Tally keeper ctx (ProposalId proposal) of
        (passes, burnDeposits, tallyResults) \<Rightarrow>
          (let ctx1 = settle_deposits ctx (ProposalId proposal) burnDeposits;
               (ctx2, proposal', tagValue, logMsg) =
                 (if passes then execute_messages keeper ctx1 proposal
                  else (ctx1, proposal\<lparr>Status := StatusRejected\<rparr>,
                        AttributeValueProposalRejected, ''rejected''))
           in conclude_proposal_V2 ctx2 proposal' tallyResults tagValue logMsg))"

definition EndBlocker :: "gov_keeper \<Rightarrow> gov_ctx \<Rightarrow> gov_ctx" where
  "EndBlocker keeper ctx =
     (let ctx1 = IterateInactiveProposalsQueue ctx (BlockTime ctx) (inactive_proposal_cb keeper);
          ctx2 = IterateActiveProposalsQueue ctx1 (BlockTime ctx1) (active_proposal_cb keeper);
          ctx3 = IterateInactiveProposalsQueueV2 ctx2 (BlockTime ctx2) (inactive_proposal_cb_V2 keeper);
          ctx4 = IterateActiveProposalsQueueV2 ctx3 (BlockTime ctx3) (active_proposal_cb_V2 keeper)
      in ctx4)"

section \<open>x/gov/genesis.go\<close>

record GenesisState =
  StartingProposalId :: nat
  Deposits :: "Deposit list"
  Votes :: "Vote list"
  Proposals :: "ProposalV1 list"
  GenDepositParams :: DepositParams
  GenVotingParams :: VotingParams
  GenTallyParams :: TallyParams
  ProposalsV2 :: "ProposalV2 list"

text \<open>The bodies of the four loops of \<^verbatim>\<open>InitGenesis\<close>.\<close>

definition import_deposit :: "Deposit \<Rightarrow> gov_ctx \<times> coins \<Rightarrow> gov_ctx \<times> coins" where
  "import_deposit deposit acc =
     (case acc of (ctx, totalDeposits) \<Rightarrow>
        (SetDeposit ctx deposit, totalDeposits + Amount deposit))"

definition import_proposal :: "ProposalV1 \<Rightarrow> gov_ctx \<Rightarrow> gov_ctx" where
  "import_proposal proposal ctx =
     (let ctx1 =
        (case Status proposal of
           StatusDepositPeriod \<Rightarrow>
             InsertInactiveProposalQueue ctx (ProposalId proposal) (DepositEndTime proposal)
         | StatusVotingPeriod \<Rightarrow>
             InsertActiveProposalQueue ctx (ProposalId proposal) (VotingEndTime proposal)
         | _ \<Rightarrow> ctx)
      in SetProposal ctx1 proposal)"

definition import_proposalV2 :: "ProposalV2 \<Rightarrow> gov_ctx \<Rightarrow> gov_ctx" where
  "import_proposalV2 proposalV2 ctx =
     (let ctx1 =
        (case Status proposalV2 of
           StatusDepositPeriod \<Rightarrow>
             InsertInactiveProposalQueue ctx (ProposalId proposalV2) (DepositEndTime proposalV2)
         | StatusVotingPeriod \<Rightarrow>
             InsertActiveProposalQueue ctx (ProposalId proposalV2) (VotingEndTime proposalV2)
         | _ \<Rightarrow> ctx)
      in SetProposalV2 ctx1 proposalV2)"

text \<open>Lines 13-16: the starting proposal id and the three parameter sets are stored.\<close>

definition InitGenesis_params :: "gov_ctx \<Rightarrow> GenesisState \<Rightarrow> gov_ctx" where
  "InitGenesis_params ctx data =
     (let ctx1 = SetProposalID ctx (StartingProposalId data);
          ctx2 = SetDepositParams ctx1 (GenDepositParams data);
          ctx3 = SetVotingParams ctx2 (GenVotingParams data);
          ctx4 = SetTallyParams ctx3 (GenTallyParams data)
      in ctx4)"

text \<open>
  Lines 24-52: the deposits, the votes and the proposals are stored; the result is the
  context and \<open>totalDeposits\<close>.
\<close>

definition InitGenesis_import :: "gov_ctx \<Rightarrow> GenesisState \<Rightarrow> gov_ctx \<times> coins" where
  "InitGenesis_import ctx data =
     (let (ctx1, totalDeposits) = fold import_deposit (Deposits data) (ctx, {#});
          ctx2 = fold (\<lambda>vote c. SetVote c vote) (Votes data) ctx1;
          ctx3 = fold import_proposal (Proposals data) ctx2;
          ctx4 = fold import_proposalV2 (ProposalsV2 data) ctx3
      in (ctx4, totalDeposits))"

text \<open>
  \<^verbatim>\<open>InitGenesis\<close> returns nothing: the result is the context it leaves, or the panic
  that aborts it. The account keeper's \<^verbatim>\<open>SetModuleAccount\<close> is the store write above.
\<close>

definition InitGenesis ::
  "bank_keeper \<Rightarrow> gov_keeper \<Rightarrow> gov_ctx \<Rightarrow> GenesisState \<Rightarrow> panic + gov_ctx" where
  "InitGenesis bk k ctx data =
     (let ctx1 = InitGenesis_params ctx data
      in case GetGovernanceAccount k ctx1 of
           None \<Rightarrow> Inl (Panic ''%s module account has not been set'' [LStr ''gov''])
         | Some moduleAcc \<Rightarrow>
             (let (ctx2, totalDeposits) = InitGenesis_import ctx1 data;
                  balance = GetAllBalances bk ctx2 (GetAddress moduleAcc);
                  ctx3 = (if balance = {#} then SetModuleAccount ctx2 moduleAcc else ctx2)
              in if balance \<noteq> totalDeposits
                 then Inl (Panic ''expected module account was %s but we got %s''
                             [LCoins balance, LCoins totalDeposits])
                 else Inr ctx3))"

section \<open>Queue membership\<close>

text \<open>
  The times under which a proposal id stands in a queue, and the data model's
  invariant for one proposal: "queue membership must match status exactly"
  (DepositPeriod: one entry in the inactive queue, under the deposit end time, none in
  the active queue; VotingPeriod: one entry in the active queue, under the voting end
  time, none in the inactive queue; any other status: no entry in either).
\<close>

definition queue_times :: "nat \<Rightarrow> (nat \<times> nat) list \<Rightarrow> nat list" where
  "queue_times i q = map fst (filter (\<lambda>(t, j). j = i) q)"

definition queues_match_status :: "gov_store \<Rightarrow> 'p Proposal \<Rightarrow> bool" where
  "queues_match_status s p =
     (queue_times (ProposalId p) (InactiveProposalQueue s) =
        (if Status p = StatusDepositPeriod then [DepositEndTime p] else [])
      \<and> queue_times (ProposalId p) (ActiveProposalQueue s) =
        (if Status p = StatusVotingPeriod then [VotingEndTime p] else []))"

definition inactive_keys :: "'p Proposal list \<Rightarrow> (nat \<times> nat) list" where
  "inactive_keys ps =
     map (\<lambda>p. (DepositEndTime p, ProposalId p)) (filter (\<lambda>p. Status p = StatusDepositPeriod) ps)"

definition active_keys :: "'p Proposal list \<Rightarrow> (nat \<times> nat) list" where
  "active_keys ps =
     map (\<lambda>p. (VotingEndTime p, ProposalId p)) (filter (\<lambda>p. Status p = StatusVotingPeriod) ps)"

section \<open>Concrete keepers and states\<close>

text \<open>
  A governance keeper whose tally always passes without burning, and whose handlers
  (content or message) write the payload into \<open>app\<close>, emit an event, and then fail
  when the payload is \<open>''fail''\<close>.
\<close>

definition empty_store :: gov_store where
  "empty_store = \<lparr>proposals = Map.empty, proposalsV2 = Map.empty, deposits = [], votes = [],
     InactiveProposalQueue = [], ActiveProposalQueue = [], proposalID = 1,
     depositParams = \<lparr>MinDeposit = {#}, MaxDepositPeriod = 0\<rparr>,
     votingParams = \<lparr>VotingPeriod = 0\<rparr>,
     tallyParams = \<lparr>Quorum = 0, Threshold = 0, VetoThreshold = 0\<rparr>,
     burned = [], refunded = [], hook_calls = [], moduleAccounts = [], app = Map.empty\<rparr>"

definition empty_tally :: TallyResult where
  "empty_tally = \<lparr>TallyYes = 0, TallyAbstain = 0, TallyNo = 0, TallyNoWithVeto = 0\<rparr>"

definition demo_tally :: TallyResult where
  "demo_tally = \<lparr>TallyYes = 50, TallyAbstain = 0, TallyNo = 0, TallyNoWithVeto = 0\<rparr>"

definition demo_handler :: "gov_ctx \<Rightarrow> string \<Rightarrow> error option \<times> gov_ctx" where
  "demo_handler ctx body =
     (let ctx' = EmitEvent (Event ''executed'' [(''payload'', body)])
                   (store_write (\<lambda>s. s\<lparr>app := (app s)(body \<mapsto> ''done'')\<rparr>) ctx)
      in if body = ''fail'' then (Some (Err ''boom''), ctx') else (None, ctx'))"

definition demo_keeper :: gov_keeper where
  "demo_keeper = \<lparr>Tally = (\<lambda>ctx i. (True, False, demo_tally)),
     GetRoute = (\<lambda>r ctx c. demo_handler ctx (ContentBody c)),
     Handler = (\<lambda>m. demo_handler),
     GetGovernanceAccount = (\<lambda>ctx. Some \<lparr>GetAddress = ''govaddr'', GetName = ''gov''\<rparr>)\<rparr>"

definition demo_proposalV2 :: ProposalV2 where
  "demo_proposalV2 = \<lparr>ProposalId = 7, Payload = [''m1'', ''fail'', ''m3''],
     Status = StatusVotingPeriod, FinalTallyResult = empty_tally,
     TotalDeposit = {#''stake''#}, DepositEndTime = 5, VotingEndTime = 10\<rparr>"

definition demo_proposal :: "string \<Rightarrow> ProposalV1" where
  "demo_proposal body = \<lparr>ProposalId = 3,
     Payload = \<lparr>GetTitle = ''a proposal'', ProposalRoute = ''params'', ContentBody = body\<rparr>,
     Status = StatusVotingPeriod, FinalTallyResult = empty_tally,
     TotalDeposit = {#''stake''#}, DepositEndTime = 5, VotingEndTime = 10\<rparr>"

definition demo_ctx :: "gov_store \<Rightarrow> gov_ctx" where
  "demo_ctx s = \<lparr>store = s, buffered = [], events = [], BlockHeight = 100, BlockTime = 10,
     logged = []\<rparr>"

definition store_V2 :: gov_store where
  "store_V2 = empty_store\<lparr>proposalsV2 := [7 \<mapsto> demo_proposalV2],
       ActiveProposalQueue := [(10, 7)],
       deposits := [\<lparr>DepositProposalId = 7, Depositor = ''alice'', Amount = {#''stake''#}\<rparr>]\<rparr>"

definition store_V1 :: "string \<Rightarrow> gov_store" where
  "store_V1 body = empty_store\<lparr>proposals := [3 \<mapsto> demo_proposal body],
       ActiveProposalQueue := [(10, 3)],
       deposits := [\<lparr>DepositProposalId = 3, Depositor = ''alice'', Amount = {#''stake''#}\<rparr>]\<rparr>"

text \<open>A snapshot to import, and a bank that holds the given balance for the module account.\<close>

definition genesis_proposal :: "nat \<Rightarrow> ProposalStatus \<Rightarrow> nat \<Rightarrow> nat \<Rightarrow> 'p \<Rightarrow> 'p Proposal" where
  "genesis_proposal i st dt vt pl = \<lparr>ProposalId = i, Payload = pl, Status = st,
     FinalTallyResult = empty_tally, TotalDeposit = {#''stake''#},
     DepositEndTime = dt, VotingEndTime = vt\<rparr>"

definition demo_content :: Content where
  "demo_content = \<lparr>GetTitle = ''a proposal'', ProposalRoute = ''params'', ContentBody = ''upgrade''\<rparr>"

definition demo_genesis :: GenesisState where
  "demo_genesis = \<lparr>StartingProposalId = 9,
     Deposits = [\<lparr>DepositProposalId = 1, Depositor = ''alice'', Amount = {#''stake''#}\<rparr>,
                 \<lparr>DepositProposalId = 3, Depositor = ''bob'', Amount = {#''stake''#}\<rparr>],
     Votes = [\<lparr>VoteProposalId = 3, Voter = ''carol'', VoteOption = ''yes''\<rparr>],
     Proposals = [genesis_proposal 1 StatusDepositPeriod 5 0 demo_content,
                  genesis_proposal 3 StatusVotingPeriod 4 10 demo_content,
                  genesis_proposal 4 StatusPassed 2 3 demo_content],
     GenDepositParams = \<lparr>MinDeposit = {#''stake''#}, MaxDepositPeriod = 2\<rparr>,
     GenVotingParams = \<lparr>VotingPeriod = 2\<rparr>,
     GenTallyParams = \<lparr>Quorum = 4, Threshold = 5, VetoThreshold = 3\<rparr>,
     ProposalsV2 = [genesis_proposal 7 StatusVotingPeriod 4 10 [''m1''],
                    genesis_proposal 8 StatusDepositPeriod 6 0 [''m2'']]\<rparr>"

definition demo_bank :: "coins \<Rightarrow> bank_keeper" where
  "demo_bank balance = \<lparr>GetAllBalances = (\<lambda>ctx a. if a = ''govaddr'' then balance else {#})\<rparr>"

text \<open>
  A slashing keeper over a store whose \<open>other\<close> part logs the calls of \<open>Slash\<close> and the
  validators unjailed: \<open>''val1''\<close> is the one validator, and it is jailed.
\<close>

record staking_log =
  slashes :: "(string \<times> 64 word \<times> 64 word \<times> dec) list"
  unjailed :: "string list"

definition demo_slashing_keeper :: "staking_log epoch_store slashing_keeper" where
  "demo_slashing_keeper = \<lparr>
     ValAddressFromBech32 = (\<lambda>a. if a = [] then Inl (Err ''empty address'') else Inr a),
     Unjail = (\<lambda>ctx a.
        if a = ''val1''
        then (None, store_write
                (\<lambda>s. s\<lparr>other := (other s)\<lparr>unjailed := unjailed (other s) @ [a]\<rparr>\<rparr>) ctx)
        else (Some (Err ''validator not jailed''), ctx)),
     Validator = (\<lambda>ctx a. if a = ''val1'' then Some \<lparr>GetConsAddr = Inr ''cons1''\<rparr> else None),
     Slash = (\<lambda>ctx consAddr h p f.
        store_write
          (\<lambda>s. s\<lparr>other := (other s)\<lparr>slashes := slashes (other s) @ [(consAddr, h, p, f)]\<rparr>\<rparr>)
          ctx),
     RoundInt64 = (\<lambda>d. Inr (word_of_int (d div 10 ^ 18))),
     ValidatorUpdateDelay = 1\<rparr>"

definition demo_epoch_ctx :: "(nat \<times> epoch_action) list \<Rightarrow> staking_log epoch_store sdk_context" where
  "demo_epoch_ctx q = \<lparr>store = \<lparr>epoch_actions = q, other = \<lparr>slashes = [], unjailed = []\<rparr>\<rparr>,
     buffered = [], events = [], BlockHeight = 100, BlockTime = 10, logged = []\<rparr>"

definition slash_val1 :: SlashEvent where
  "slash_val1 = \<lparr>Address = ''val1'', SlashedSoFar = 5 * 10 ^ 16\<rparr>"

definition slash_nobody :: SlashEvent where
  "slash_nobody = \<lparr>Address = ''val9'', SlashedSoFar = 5 * 10 ^ 16\<rparr>"

section \<open>What a drain does to one proposal\<close>

text \<open>
  The events the Block Driver emits (\<open>is_gov_event\<close>), and those of them that carry
  the id \<open>i\<close> (\<open>gov_event_of\<close>); the proposal a hook was called for; the deposits of a
  proposal among a list of deposits.
\<close>

definition is_gov_event :: "event \<Rightarrow> bool" where
  "is_gov_event e =
     (case e of Event ty attrs \<Rightarrow> ty = EventTypeInactiveProposal \<or> ty = EventTypeActiveProposal)"

definition gov_event_of :: "nat \<Rightarrow> event \<Rightarrow> bool" where
  "gov_event_of i e =
     (case e of Event ty attrs \<Rightarrow>
        (ty = EventTypeInactiveProposal \<or> ty = EventTypeActiveProposal)
        \<and> (AttributeKeyProposalID, fmt_d i) \<in> set attrs)"

fun hook_id :: "hook_call \<Rightarrow> nat" where
  "hook_id (AfterProposalFailedMinDeposit_called i) = i"
| "hook_id (AfterProposalVotingPeriodEnded_called i) = i"

definition deposits_of :: "nat \<Rightarrow> Deposit list \<Rightarrow> Deposit list" where
  "deposits_of i ds = filter (\<lambda>d. DepositProposalId d = i) ds"

text \<open>
  What the drains ask of the payload handlers, which are arbitrary functions on
  contexts: a handler leaves the state of the governance keeper to the keeper. Each
  write it buffers in the scope keeps the proposals, the deposits, the two queues, the
  ledger's log and the hooks' log as they are (\<open>keeps_gov\<close>), and it emits no event of
  the two types of the Block Driver (\<open>scope_ok\<close>, kept by every handler:
  \<open>handlers_keep_gov\<close>).
\<close>

definition keeps_gov :: "(gov_store \<Rightarrow> gov_store) \<Rightarrow> bool" where
  "keeps_gov f =
     (\<forall>s. proposals (f s) = proposals s \<and> proposalsV2 (f s) = proposalsV2 s
         \<and> deposits (f s) = deposits s
         \<and> InactiveProposalQueue (f s) = InactiveProposalQueue s
         \<and> ActiveProposalQueue (f s) = ActiveProposalQueue s
         \<and> burned (f s) = burned s \<and> refunded (f s) = refunded s
         \<and> hook_calls (f s) = hook_calls s)"

definition scope_ok :: "gov_ctx \<Rightarrow> bool" where
  "scope_ok c = ((\<forall>f \<in> set (buffered c). keeps_gov f) \<and> (\<forall>e \<in> set (events c). \<not> is_gov_event e))"

definition handlers_keep_gov :: "gov_keeper \<Rightarrow> bool" where
  "handlers_keep_gov k =
     ((\<forall>r c x. scope_ok c \<longrightarrow> scope_ok (snd (GetRoute k r c x)))
      \<and> (\<forall>m c x. scope_ok c \<longrightarrow> scope_ok (snd (Handler k m c x))))"

text \<open>A proposal is stored under its own id.\<close>

definition keys_ok :: "gov_store \<Rightarrow> bool" where
  "keys_ok s =
     ((\<forall>i p. proposals s i = Some p \<longrightarrow> ProposalId p = i)
      \<and> (\<forall>i p. proposalsV2 s i = Some p \<longrightarrow> ProposalId p = i))"

text \<open>
  The view of proposal \<open>i\<close> in a context: what is stored under \<open>i\<close>, the times under
  which \<open>i\<close> is queued, its deposits, what the ledger burned and refunded for it, the
  hook calls and the governance events about it, and the block time.
\<close>

record proposal_view =
  o_proposal :: "ProposalV1 option"
  o_proposalV2 :: "ProposalV2 option"
  o_inactive :: "nat list"
  o_active :: "nat list"
  o_deposits :: "Deposit list"
  o_burned :: "Deposit list"
  o_refunded :: "Deposit list"
  o_hooks :: "hook_call list"
  o_events :: "event list"
  o_time :: nat

definition obs :: "nat \<Rightarrow> gov_ctx \<Rightarrow> proposal_view" where
  "obs i c = \<lparr>
     o_proposal = proposals (store c) i,
     o_proposalV2 = proposalsV2 (store c) i,
     o_inactive = queue_times i (InactiveProposalQueue (store c)),
     o_active = queue_times i (ActiveProposalQueue (store c)),
     o_deposits = deposits_of i (deposits (store c)),
     o_burned = deposits_of i (burned (store c)),
     o_refunded = deposits_of i (refunded (store c)),
     o_hooks = filter (\<lambda>h. hook_id h = i) (hook_calls (store c)),
     o_events = filter (gov_event_of i) (events c),
     o_time = BlockTime c\<rparr>"

text \<open>
  The outcome tag of a status, the terminal event of the active queue and the event of
  the inactive queue.
\<close>

definition status_tag :: "ProposalStatus \<Rightarrow> string" where
  "status_tag st =
     (case st of
        StatusPassed \<Rightarrow> AttributeValueProposalPassed
      | StatusRejected \<Rightarrow> AttributeValueProposalRejected
      | StatusFailed \<Rightarrow> AttributeValueProposalFailed
      | _ \<Rightarrow> [])"

definition terminal_event :: "nat \<Rightarrow> ProposalStatus \<Rightarrow> event" where
  "terminal_event i st =
     Event EventTypeActiveProposal
       [(AttributeKeyProposalID, fmt_d i), (AttributeKeyProposalResult, status_tag st)]"

definition dropped_event :: "nat \<Rightarrow> event" where
  "dropped_event i =
     Event EventTypeInactiveProposal
       [(AttributeKeyProposalID, fmt_d i),
        (AttributeKeyProposalResult, AttributeValueProposalDropped)]"

text \<open>
  The view of \<open>i\<close> once its voting period is resolved (but for the proposal stored),
  and once it is dropped.
\<close>

definition resolved_view ::
  "nat \<Rightarrow> proposal_view \<Rightarrow> bool \<Rightarrow> nat \<Rightarrow> ProposalStatus \<Rightarrow> proposal_view" where
  "resolved_view i v b vt st =
     (if b then v\<lparr>o_deposits := [], o_burned := o_burned v @ o_deposits v\<rparr>
      else v\<lparr>o_deposits := [], o_refunded := o_refunded v @ o_deposits v\<rparr>)
       \<lparr>o_active := removeAll vt (o_active v),
        o_hooks := o_hooks v @ [AfterProposalVotingPeriodEnded_called i],
        o_events := o_events v @ [terminal_event i st]\<rparr>"

definition dropped_view :: "nat \<Rightarrow> proposal_view \<Rightarrow> proposal_view" where
  "dropped_view i v =
     v\<lparr>o_proposal := None, o_proposalV2 := None, o_inactive := [], o_active := [],
       o_deposits := [], o_burned := o_burned v @ o_deposits v,
       o_hooks := o_hooks v @ [AfterProposalFailedMinDeposit_called i],
       o_events := o_events v @ [dropped_event i]\<rparr>"

text \<open>
  The properties of a drive pass. \<open>resolved\<close>: the proposal of id \<open>i\<close> has one of the
  three terminal statuses, the pass added exactly one governance event about \<open>i\<close>, the
  terminal event with the tag of that status, and \<open>i\<close> has no entry in the active queue.
  \<open>dropped\<close>: no proposal and no deposit of \<open>i\<close> exists, \<open>i\<close> is in no queue, what the
  pass burned for \<open>i\<close> amounts to \<open>amount\<close>, nothing was refunded for it, and the pass
  added exactly one governance event about \<open>i\<close>, the Dropped event, and one hook call
  about \<open>i\<close>, the one of the inactive proposals.
\<close>

definition status_of :: "gov_store \<Rightarrow> nat \<Rightarrow> ProposalStatus option" where
  "status_of s i =
     (case proposals s i of
        Some p \<Rightarrow> Some (Status p)
      | None \<Rightarrow> map_option Status (proposalsV2 s i))"

definition resolved :: "nat \<Rightarrow> gov_ctx \<Rightarrow> gov_ctx \<Rightarrow> bool" where
  "resolved i ctx ctx' =
     ((case status_of (store ctx') i of
         None \<Rightarrow> False
       | Some st \<Rightarrow>
           (st = StatusPassed \<or> st = StatusRejected \<or> st = StatusFailed)
           \<and> filter (gov_event_of i) (events ctx') =
               filter (gov_event_of i) (events ctx) @ [terminal_event i st])
      \<and> queue_times i (ActiveProposalQueue (store ctx')) = [])"

definition dropped :: "nat \<Rightarrow> coins \<Rightarrow> gov_ctx \<Rightarrow> gov_ctx \<Rightarrow> bool" where
  "dropped i amount ctx ctx' =
     (proposals (store ctx') i = None \<and> proposalsV2 (store ctx') i = None
      \<and> queue_times i (InactiveProposalQueue (store ctx')) = []
      \<and> queue_times i (ActiveProposalQueue (store ctx')) = []
      \<and> deposits_of i (deposits (store ctx')) = []
      \<and> sum_list (map Amount (deposits_of i (burned (store ctx')))) =
          sum_list (map Amount (deposits_of i (burned (store ctx)))) + amount
      \<and> deposits_of i (refunded (store ctx')) = deposits_of i (refunded (store ctx))
      \<and> filter (gov_event_of i) (events ctx') =
          filter (gov_event_of i) (events ctx) @ [dropped_event i]
      \<and> filter (\<lambda>h. hook_id h = i) (hook_calls (store ctx')) =
          filter (\<lambda>h. hook_id h = i) (hook_calls (store ctx))
            @ [AfterProposalFailedMinDeposit_called i])"

text \<open>
  A store with five proposals, all due at block time 10: V1 proposals 1 (DepositPeriod),
  3 and 4 (VotingPeriod; the content handler of 4 fails), V2 proposals 7 (VotingPeriod;
  its second message fails) and 8 (DepositPeriod), each with one deposit.
\<close>

definition demo_deposit :: "nat \<Rightarrow> string \<Rightarrow> Deposit" where
  "demo_deposit i who = \<lparr>DepositProposalId = i, Depositor = who, Amount = {#''stake''#}\<rparr>"

definition store_mixed :: gov_store where
  "store_mixed = empty_store\<lparr>
     proposals := [1 \<mapsto> genesis_proposal 1 StatusDepositPeriod 5 0 demo_content,
                   3 \<mapsto> demo_proposal ''upgrade'',
                   4 \<mapsto> (demo_proposal ''fail'')\<lparr>ProposalId := 4, VotingEndTime := 9\<rparr>],
     proposalsV2 := [7 \<mapsto> demo_proposalV2,
                     8 \<mapsto> genesis_proposal 8 StatusDepositPeriod 6 0 [''m2'']],
     InactiveProposalQueue := [(5, 1), (6, 8)],
     ActiveProposalQueue := [(9, 4), (10, 3), (10, 7)],
     deposits := [demo_deposit 1 ''alice'', demo_deposit 3 ''bob'', demo_deposit 4 ''carol'',
                  demo_deposit 7 ''alice'', demo_deposit 8 ''dave'']\<rparr>"

text \<open>
  Two snapshots with nothing deposited: one whose two V1 records share the id 1, and one
  with a single record of id 1; and a store whose active queue already holds the id 1.
\<close>

definition dup_genesis :: GenesisState where
  "dup_genesis = demo_genesis\<lparr>Deposits := [],
     Proposals := [genesis_proposal 1 StatusDepositPeriod 5 0 demo_content,
                   genesis_proposal 1 StatusPassed 2 3 demo_content],
     ProposalsV2 := []\<rparr>"

definition one_genesis :: GenesisState where
  "one_genesis = demo_genesis\<lparr>Deposits := [],
     Proposals := [genesis_proposal 1 StatusDepositPeriod 5 0 demo_content],
     ProposalsV2 := []\<rparr>"

definition stale_store :: gov_store where
  "stale_store = empty_store\<lparr>ActiveProposalQueue := [(3, 1)]\<rparr>"

section \<open>Unfolding the model on concrete inputs\<close>

lemmas demo_defs = demo_ctx_def store_V2_def store_V1_def demo_keeper_def empty_store_def
  demo_handler_def demo_proposalV2_def demo_proposal_def demo_tally_def empty_tally_def

lemmas gov_defs = EndBlocker_def IterateInactiveProposalsQueue_def
  IterateActiveProposalsQueue_def IterateInactiveProposalsQueueV2_def
  IterateActiveProposalsQueueV2_def due_keys_def GetProposal_def GetProposalV2_def
  active_proposal_cb_V2_def active_proposal_cb_def execute_content_def
  execute_messages_def conclude_proposal_def conclude_proposal_V2_def settle_deposits_def
  inactive_proposal_cb_def inactive_proposal_cb_V2_def DeleteProposal_def
  GetDepositParams_def CacheContext_def writeCache_def store_write_def EmitEvents_def
  EmitEvent_def DeleteAndBurnDeposits_def RefundAndDeleteDeposits_def SetProposalV2_def
  SetProposal_def RemoveFromActiveProposalQueue_def AfterProposalVotingPeriodEnded_def
  AfterProposalFailedMinDeposit_def logger_Info_def Let_def
  EventTypeInactiveProposal_def EventTypeActiveProposal_def AttributeKeyProposalID_def
  AttributeKeyProposalResult_def AttributeValueProposalDropped_def
  AttributeValueProposalPassed_def AttributeValueProposalRejected_def
  AttributeValueProposalFailed_def fmt_d.simps digit_def error_text_def

lemmas genesis_defs = InitGenesis_def InitGenesis_params_def InitGenesis_import_def
  import_deposit_def import_proposal_def import_proposalV2_def SetProposalID_def
  SetDepositParams_def SetVotingParams_def SetTallyParams_def SetDeposit_def SetVote_def
  SetProposal_def SetProposalV2_def InsertInactiveProposalQueue_def
  InsertActiveProposalQueue_def SetModuleAccount_def queue_insert_def store_write_def Let_def

lemmas slashing_demo_defs = demo_slashing_keeper_def demo_epoch_ctx_def slash_val1_def
  slash_nobody_def

section \<open>The deferred actions of x/slashing\<close>

lemma executeQueuedSlashEvent_found:
  "Validator k ctx (Address msg) = Some v \<Longrightarrow>
   executeQueuedSlashEvent k ctx msg = Inr (Some ErrBadValidatorAddr, ctx)"
  by (simp add: executeQueuedSlashEvent_def)

lemma executeQueuedSlashEvent_not_found:
  "Validator k ctx (Address msg) = None \<Longrightarrow>
   executeQueuedSlashEvent k ctx msg = Inl NilPointerDereference"
  by (simp add: executeQueuedSlashEvent_def)

text \<open>
  C10. The slash of a queued SlashEvent is never applied. Whatever the keeper, the
  context and the event: when the lookup finds a validator the handler returns
  \<open>ErrBadValidatorAddr\<close> and leaves the context as it was; when it finds none the
  handler panics on the nil validator. It never returns nil, the only return behind
  the call of \<open>Slash\<close>, and its result is the same whatever \<open>Slash\<close> would do. In the
  loop of \<open>ExecuteEpoch\<close> a SlashEvent is therefore either dropped from the queue with
  nothing else written, or the pass panics.
\<close>

theorem slash_event_never_slashes:
  "executeQueuedSlashEvent k ctx msg =
     (case Validator k ctx (Address msg) of
        Some v \<Rightarrow> Inr (Some ErrBadValidatorAddr, ctx)
      | None \<Rightarrow> Inl NilPointerDereference)
   \<and> (\<forall>ctx'. executeQueuedSlashEvent k ctx msg \<noteq> Inr (None, ctx'))
   \<and> executeQueuedSlashEvent (k\<lparr>Slash := f\<rparr>) ctx msg = executeQueuedSlashEvent k ctx msg
   \<and> ExecuteEpoch_loop k ((key, SlashAction msg) # rest) ctx =
     (case Validator k ctx (Address msg) of
        Some v \<Rightarrow> ExecuteEpoch_loop k rest (DeleteByKey ctx key)
      | None \<Rightarrow> Panicked NilPointerDereference ctx)"
  by (cases "Validator k ctx (Address msg)")
     (simp_all add: executeQueuedSlashEvent_def)

text \<open>
  C2 (the code departs from the claim). A SlashEvent recorded for \<open>''val1''\<close>, a
  validator the staking keeper knows, at height 100: the handler returns
  \<open>ErrBadValidatorAddr\<close>, the pass drops the event from the queue, and no slash has been
  applied at any height.
\<close>

theorem slash_event_of_known_validator_is_refused:
  "executeQueuedSlashEvent demo_slashing_keeper
       (demo_epoch_ctx [(0, SlashAction slash_val1)]) slash_val1
     = Inr (Some ErrBadValidatorAddr, demo_epoch_ctx [(0, SlashAction slash_val1)])
   \<and> ExecuteEpoch demo_slashing_keeper (demo_epoch_ctx [(0, SlashAction slash_val1)])
     = Completed (DeleteByKey (demo_epoch_ctx [(0, SlashAction slash_val1)]) 0)
   \<and> slashes (other (store (DeleteByKey (demo_epoch_ctx [(0, SlashAction slash_val1)]) 0))) = []
   \<and> epoch_actions (store (DeleteByKey (demo_epoch_ctx [(0, SlashAction slash_val1)]) 0)) = []"
  by (simp add: executeQueuedSlashEvent_def ExecuteEpoch_def slashing_demo_defs
        DeleteByKey_def store_write_def)

text \<open>
  C3 (the code departs from the claim). A queue of a SlashEvent recorded for an address
  with no validator, followed by an unjail request: the slash handler, which is handed
  the base context and not the scope, panics on the nil validator; the pass stops
  there, with both actions still in the queue.
\<close>

theorem slash_event_of_unknown_validator_panics:
  "ExecuteEpoch demo_slashing_keeper
     (demo_epoch_ctx [(0, SlashAction slash_nobody),
                      (1, UnjailAction \<lparr>ValidatorAddr = ''val1''\<rparr>)])
   = Panicked NilPointerDereference
       (demo_epoch_ctx [(0, SlashAction slash_nobody),
                        (1, UnjailAction \<lparr>ValidatorAddr = ''val1''\<rparr>)])
   \<and> epoch_actions (store (demo_epoch_ctx [(0, SlashAction slash_nobody),
                        (1, UnjailAction \<lparr>ValidatorAddr = ''val1''\<rparr>)]))
     = [(0, SlashAction slash_nobody), (1, UnjailAction \<lparr>ValidatorAddr = ''val1''\<rparr>)]"
  by (simp add: executeQueuedSlashEvent_def ExecuteEpoch_def slashing_demo_defs)

section \<open>The scope of a payload\<close>

lemma fold_store_write:
  "fold store_write fs ctx =
     ctx\<lparr>store := fold (\<lambda>f s. f s) fs (store ctx), buffered := buffered ctx @ fs\<rparr>"
  by (induction fs arbitrary: ctx) (simp_all add: store_write_def)

lemma writeCache_eq:
  "writeCache cacheCtx ctx =
     ctx\<lparr>store := fold (\<lambda>f s. f s) (buffered cacheCtx) (store ctx),
         buffered := buffered ctx @ buffered cacheCtx\<rparr>"
  by (simp add: writeCache_def fold_store_write)

lemma execute_content_nil:
  "GetRoute keeper (ProposalRoute (Payload proposal)) (CacheContext ctx) (Payload proposal)
     = (None, cacheCtx') \<Longrightarrow>
   execute_content keeper ctx proposal =
     (ctx\<lparr>store := fold (\<lambda>f s. f s) (buffered cacheCtx') (store ctx),
          buffered := buffered ctx @ buffered cacheCtx',
          events := events ctx @ events cacheCtx'\<rparr>,
      proposal\<lparr>Status := StatusPassed\<rparr>, AttributeValueProposalPassed, ''passed'')"
  by (simp add: execute_content_def writeCache_eq EmitEvents_def)

lemma execute_content_err:
  "GetRoute keeper (ProposalRoute (Payload proposal)) (CacheContext ctx) (Payload proposal)
     = (Some err, cacheCtx') \<Longrightarrow>
   execute_content keeper ctx proposal =
     (ctx, proposal\<lparr>Status := StatusFailed\<rparr>, AttributeValueProposalFailed,
      ''passed, but failed on execution: '' @ error_text err)"
  by (simp add: execute_content_def)

text \<open>
  C4. A V1 proposal that passes the tally, \<open>base\<close> being the context once its deposits
  are settled, the one the scope is opened on. When the content handler returns nil,
  the callback continues from \<open>base\<close> with the scope's buffered writes replayed on its
  store, in order, and the scope's events appended to its event log. When the handler
  returns an error, the callback continues from \<open>base\<close> itself: nothing the handler
  wrote or emitted in the scope (\<open>cacheCtx'\<close>) occurs in the result.
\<close>

theorem content_scope_commit_or_discard:
  assumes "Tally keeper ctx (ProposalId proposal) = (True, burnDeposits, tallyResults)"
    and "base = settle_deposits ctx (ProposalId proposal) burnDeposits"
    and "GetRoute keeper (ProposalRoute (Payload proposal)) (CacheContext base) (Payload proposal)
           = (result, cacheCtx')"
  shows "(result = None \<longrightarrow>
            active_proposal_cb keeper ctx proposal =
              conclude_proposal
                (base\<lparr>store := fold (\<lambda>f s. f s) (buffered cacheCtx') (store base),
                      buffered := buffered base @ buffered cacheCtx',
                      events := events base @ events cacheCtx'\<rparr>)
                (proposal\<lparr>Status := StatusPassed\<rparr>) tallyResults
                AttributeValueProposalPassed ''passed'')
       \<and> (\<forall>err. result = Some err \<longrightarrow>
            active_proposal_cb keeper ctx proposal =
              conclude_proposal base (proposal\<lparr>Status := StatusFailed\<rparr>) tallyResults
                AttributeValueProposalFailed
                (''passed, but failed on execution: '' @ error_text err))"
  using assms
  by (auto simp add: active_proposal_cb_def execute_content_nil execute_content_err)

theorem content_scope_commit_or_discard_witness:
  "app (store (snd (active_proposal_cb demo_keeper (demo_ctx (store_V1 ''upgrade''))
          (demo_proposal ''upgrade'')))) ''upgrade'' = Some ''done''
   \<and> events (snd (active_proposal_cb demo_keeper (demo_ctx (store_V1 ''upgrade''))
          (demo_proposal ''upgrade''))) =
       [Event ''executed'' [(''payload'', ''upgrade'')],
        Event ''active_proposal''
          [(''proposal_id'', ''3''), (''proposal_result'', ''proposal_passed'')]]
   \<and> app (store (snd (active_proposal_cb demo_keeper (demo_ctx (store_V1 ''fail''))
          (demo_proposal ''fail'')))) ''fail'' = None
   \<and> events (snd (active_proposal_cb demo_keeper (demo_ctx (store_V1 ''fail''))
          (demo_proposal ''fail''))) =
       [Event ''active_proposal''
          [(''proposal_id'', ''3''), (''proposal_result'', ''proposal_failed'')]]"
proof -
  let ?k = demo_keeper
  have tally: "\<And>c p. Tally ?k c (ProposalId p) = (True, False, demo_tally)"
    by (simp add: demo_keeper_def)
  let ?ok = "demo_ctx (store_V1 ''upgrade'')" and ?p = "demo_proposal ''upgrade''"
  let ?bad = "demo_ctx (store_V1 ''fail'')" and ?q = "demo_proposal ''fail''"
  obtain cc where ok: "GetRoute ?k (ProposalRoute (Payload ?p))
      (CacheContext (settle_deposits ?ok (ProposalId ?p) False)) (Payload ?p) = (None, cc)"
    by (simp add: demo_keeper_def demo_handler_def demo_proposal_def)
  obtain cc' where bad: "GetRoute ?k (ProposalRoute (Payload ?q))
      (CacheContext (settle_deposits ?bad (ProposalId ?q) False)) (Payload ?q)
        = (Some (Err ''boom''), cc')"
    by (simp add: demo_keeper_def demo_handler_def demo_proposal_def)
  have a: "active_proposal_cb ?k ?ok ?p =
      conclude_proposal
        (settle_deposits ?ok (ProposalId ?p) False
           \<lparr>store := fold (\<lambda>f s. f s) (buffered cc)
                       (store (settle_deposits ?ok (ProposalId ?p) False)),
            buffered := buffered (settle_deposits ?ok (ProposalId ?p) False) @ buffered cc,
            events := events (settle_deposits ?ok (ProposalId ?p) False) @ events cc\<rparr>)
        (?p\<lparr>Status := StatusPassed\<rparr>) demo_tally AttributeValueProposalPassed ''passed''"
    using content_scope_commit_or_discard [OF tally refl ok] by simp
  have b: "active_proposal_cb ?k ?bad ?q =
      conclude_proposal (settle_deposits ?bad (ProposalId ?q) False)
        (?q\<lparr>Status := StatusFailed\<rparr>) demo_tally AttributeValueProposalFailed
        (''passed, but failed on execution: '' @ error_text (Err ''boom''))"
    using content_scope_commit_or_discard [OF tally refl bad] by simp
  have cc: "cc = snd (demo_handler (CacheContext (settle_deposits ?ok 3 False)) ''upgrade'')"
    using ok by (simp add: demo_keeper_def demo_proposal_def demo_handler_def Let_def)
  show ?thesis
    unfolding a b cc
    by (simp add: demo_defs gov_defs)
qed

section \<open>The messages of a V2 proposal\<close>

text \<open>
  C1 (the code departs from the claim). A V2 proposal that passes the tally, with the
  three messages \<open>''m1''\<close>, \<open>''fail''\<close>, \<open>''m3''\<close>, the second of which fails after
  writing. The handlers are called in order and the third is not reached, but after
  \<open>EndBlocker\<close> the proposal is Passed, the writes and the events of the first two
  messages are in the base state, the terminal event says passed, and the log records
  neither the failure nor an index.
\<close>

theorem v2_failing_message_is_committed:
  "map_option Status (proposalsV2 (store (EndBlocker demo_keeper (demo_ctx store_V2))) 7)
     = Some StatusPassed
   \<and> app (store (EndBlocker demo_keeper (demo_ctx store_V2))) ''m1'' = Some ''done''
   \<and> app (store (EndBlocker demo_keeper (demo_ctx store_V2))) ''fail'' = Some ''done''
   \<and> app (store (EndBlocker demo_keeper (demo_ctx store_V2))) ''m3'' = None
   \<and> events (EndBlocker demo_keeper (demo_ctx store_V2)) =
        [Event ''executed'' [(''payload'', ''m1'')], Event ''executed'' [(''payload'', ''fail'')],
         Event ''active_proposal''
           [(''proposal_id'', ''7''), (''proposal_result'', ''proposal_passed'')]]
   \<and> logged (EndBlocker demo_keeper (demo_ctx store_V2)) =
        [(''proposal tallied'', [(''proposal'', LNat 7), (''results'', LStr ''passed'')])]"
  by (simp add: demo_defs gov_defs)

text \<open>
  C5 (the code departs from the claim). The same V2 proposal, whose payload execution
  fails at its second message: its deposit is refunded as the tally says, but its
  status is set to Passed, not Failed, and the failure text is not even logged. (For a
  V1 proposal the code does what the claim says: see the last section.)
\<close>

theorem v2_failing_proposal_is_marked_passed:
  "map_option Status (proposalsV2 (store (EndBlocker demo_keeper (demo_ctx store_V2))) 7)
     \<noteq> Some StatusFailed
   \<and> map_option Status (proposalsV2 (store (EndBlocker demo_keeper (demo_ctx store_V2))) 7)
     = Some StatusPassed
   \<and> refunded (store (EndBlocker demo_keeper (demo_ctx store_V2))) =
        [\<lparr>DepositProposalId = 7, Depositor = ''alice'', Amount = {#''stake''#}\<rparr>]
   \<and> deposits (store (EndBlocker demo_keeper (demo_ctx store_V2))) = []
   \<and> logged (EndBlocker demo_keeper (demo_ctx store_V2)) =
        [(''proposal tallied'', [(''proposal'', LNat 7), (''results'', LStr ''passed'')])]"
  by (simp add: demo_defs gov_defs)

section \<open>Snapshot import\<close>

lemma fold_import_deposit_total:
  "snd (fold import_deposit ds (ctx, tot)) = tot + sum_list (map Amount ds)"
  by (induction ds arbitrary: ctx tot) (simp_all add: import_deposit_def add.assoc)

lemma InitGenesis_import_total:
  "snd (InitGenesis_import ctx data) = sum_list (map Amount (Deposits data))"
  using fold_import_deposit_total [of "Deposits data" ctx "{#}"]
  by (auto simp add: InitGenesis_import_def Let_def split: prod.splits)

text \<open>
  C8. Snapshot import is fatal on a missing module account and on a balance mismatch.
  When the lookup of the governance module account (made once the parameters are
  stored) gives nil, \<open>InitGenesis\<close> panics; when it gives an account whose balance
  (read once the snapshot is stored) is not the sum of the imported deposits,
  \<open>InitGenesis\<close> panics; and in no other case: it ends with a context only when the
  account is there and its balance equals that sum. A panic carries no context: the
  function has no path that recovers from either.
\<close>

theorem InitGenesis_aborts_on_missing_account_or_mismatch:
  "(GetGovernanceAccount k (InitGenesis_params ctx data) = None \<longrightarrow>
      InitGenesis bk k ctx data =
        Inl (Panic ''%s module account has not been set'' [LStr ''gov'']))
   \<and> (\<forall>moduleAcc.
        GetGovernanceAccount k (InitGenesis_params ctx data) = Some moduleAcc \<and>
        GetAllBalances bk (fst (InitGenesis_import (InitGenesis_params ctx data) data))
          (GetAddress moduleAcc) \<noteq> sum_list (map Amount (Deposits data)) \<longrightarrow>
        InitGenesis bk k ctx data =
          Inl (Panic ''expected module account was %s but we got %s''
                 [LCoins (GetAllBalances bk
                    (fst (InitGenesis_import (InitGenesis_params ctx data) data))
                    (GetAddress moduleAcc)),
                  LCoins (sum_list (map Amount (Deposits data)))]))
   \<and> (\<forall>ctx'. InitGenesis bk k ctx data = Inr ctx' \<longrightarrow>
        (\<exists>moduleAcc.
           GetGovernanceAccount k (InitGenesis_params ctx data) = Some moduleAcc \<and>
           GetAllBalances bk (fst (InitGenesis_import (InitGenesis_params ctx data) data))
             (GetAddress moduleAcc) = sum_list (map Amount (Deposits data))))"
  using InitGenesis_import_total [of "InitGenesis_params ctx data" data]
  by (auto simp add: InitGenesis_def Let_def split: option.splits prod.splits if_splits)

theorem InitGenesis_aborts_witness:
  "InitGenesis (demo_bank {#''stake'', ''stake''#})
       (demo_keeper\<lparr>GetGovernanceAccount := (\<lambda>ctx. None)\<rparr>) (demo_ctx empty_store) demo_genesis
     = Inl (Panic ''%s module account has not been set'' [LStr ''gov''])
   \<and> InitGenesis (demo_bank {#''stake''#}) demo_keeper (demo_ctx empty_store) demo_genesis
     = Inl (Panic ''expected module account was %s but we got %s''
              [LCoins {#''stake''#}, LCoins {#''stake'', ''stake''#}])"
proof -
  let ?k = "demo_keeper\<lparr>GetGovernanceAccount := (\<lambda>ctx. None)\<rparr>"
  let ?c = "demo_ctx empty_store"
  have a: "GetGovernanceAccount ?k (InitGenesis_params ?c demo_genesis) = None"
    by simp
  have b: "GetGovernanceAccount demo_keeper (InitGenesis_params ?c demo_genesis)
             = Some \<lparr>GetAddress = ''govaddr'', GetName = ''gov''\<rparr>
           \<and> GetAllBalances (demo_bank {#''stake''#})
               (fst (InitGenesis_import (InitGenesis_params ?c demo_genesis) demo_genesis))
               (GetAddress \<lparr>GetAddress = ''govaddr'', GetName = ''gov''\<rparr>)
             \<noteq> sum_list (map Amount (Deposits demo_genesis))"
    by (simp add: demo_keeper_def demo_bank_def demo_genesis_def)
  have s: "sum_list (map Amount (Deposits demo_genesis)) = {#''stake'', ''stake''#}"
    by (simp add: demo_genesis_def)
  from InitGenesis_aborts_on_missing_account_or_mismatch
         [of ?k ?c demo_genesis "demo_bank {#''stake'', ''stake''#}", THEN conjunct1, rule_format, OF a]
       InitGenesis_aborts_on_missing_account_or_mismatch
         [of demo_keeper ?c demo_genesis "demo_bank {#''stake''#}", THEN conjunct2, THEN conjunct1,
          rule_format, OF b]
  show ?thesis
    by (simp add: s demo_bank_def)
qed

lemma set_queue_insert [simp]: "set (queue_insert k q) = insert k (set q)"
  by (simp add: queue_insert_def set_insort_key insert_absorb)

lemma distinct_queue_insert [simp]: "distinct (queue_insert k q) = distinct q"
  by (simp add: queue_insert_def distinct_insort)

lemma set_fold_queue_insert: "set (fold queue_insert ks q) = set q \<union> set ks"
  by (induction ks arbitrary: q) auto

lemma distinct_fold_queue_insert: "distinct (fold queue_insert ks q) = distinct q"
  by (induction ks arbitrary: q) auto

lemma fold_import_deposit_queues:
  "InactiveProposalQueue (store (fst (fold import_deposit ds (ctx, tot)))) =
     InactiveProposalQueue (store ctx)
   \<and> ActiveProposalQueue (store (fst (fold import_deposit ds (ctx, tot)))) =
     ActiveProposalQueue (store ctx)"
  by (induction ds arbitrary: ctx tot)
     (simp_all add: import_deposit_def SetDeposit_def store_write_def)

lemma fold_SetVote_queues:
  "InactiveProposalQueue (store (fold (\<lambda>vote c. SetVote c vote) vs ctx)) =
     InactiveProposalQueue (store ctx)
   \<and> ActiveProposalQueue (store (fold (\<lambda>vote c. SetVote c vote) vs ctx)) =
     ActiveProposalQueue (store ctx)"
  by (induction vs arbitrary: ctx) (simp_all add: SetVote_def store_write_def)

lemma fold_import_proposal_queues:
  "InactiveProposalQueue (store (fold import_proposal ps ctx)) =
     fold queue_insert (inactive_keys ps) (InactiveProposalQueue (store ctx))
   \<and> ActiveProposalQueue (store (fold import_proposal ps ctx)) =
     fold queue_insert (active_keys ps) (ActiveProposalQueue (store ctx))"
  by (induction ps arbitrary: ctx)
     (simp_all add: import_proposal_def inactive_keys_def active_keys_def SetProposal_def
        InsertInactiveProposalQueue_def InsertActiveProposalQueue_def store_write_def
        split: ProposalStatus.splits)

lemma fold_import_proposalV2_queues:
  "InactiveProposalQueue (store (fold import_proposalV2 ps ctx)) =
     fold queue_insert (inactive_keys ps) (InactiveProposalQueue (store ctx))
   \<and> ActiveProposalQueue (store (fold import_proposalV2 ps ctx)) =
     fold queue_insert (active_keys ps) (ActiveProposalQueue (store ctx))"
  by (induction ps arbitrary: ctx)
     (simp_all add: import_proposalV2_def inactive_keys_def active_keys_def SetProposalV2_def
        InsertInactiveProposalQueue_def InsertActiveProposalQueue_def store_write_def
        split: ProposalStatus.splits)

lemma InitGenesis_params_queues:
  "InactiveProposalQueue (store (InitGenesis_params ctx data)) = InactiveProposalQueue (store ctx)
   \<and> ActiveProposalQueue (store (InitGenesis_params ctx data)) = ActiveProposalQueue (store ctx)"
  by (simp add: InitGenesis_params_def SetProposalID_def SetDepositParams_def
        SetVotingParams_def SetTallyParams_def store_write_def Let_def)

lemma InitGenesis_import_queues:
  "InactiveProposalQueue (store (fst (InitGenesis_import ctx data))) =
     fold queue_insert (inactive_keys (ProposalsV2 data))
       (fold queue_insert (inactive_keys (Proposals data)) (InactiveProposalQueue (store ctx)))
   \<and> ActiveProposalQueue (store (fst (InitGenesis_import ctx data))) =
     fold queue_insert (active_keys (ProposalsV2 data))
       (fold queue_insert (active_keys (Proposals data)) (ActiveProposalQueue (store ctx)))"
proof -
  obtain c t where f: "fold import_deposit (Deposits data) (ctx, {#}) = (c, t)"
    by (cases "fold import_deposit (Deposits data) (ctx, {#})")
  have c: "InactiveProposalQueue (store c) = InactiveProposalQueue (store ctx)
           \<and> ActiveProposalQueue (store c) = ActiveProposalQueue (store ctx)"
    using fold_import_deposit_queues [of "Deposits data" ctx "{#}"] f by simp
  show ?thesis
    by (simp add: InitGenesis_import_def f Let_def fold_import_proposalV2_queues
          fold_import_proposal_queues fold_SetVote_queues c)
qed

lemma InitGenesis_queues:
  assumes "InitGenesis bk k ctx data = Inr ctx'"
  shows "InactiveProposalQueue (store ctx') =
           fold queue_insert (inactive_keys (ProposalsV2 data))
             (fold queue_insert (inactive_keys (Proposals data)) (InactiveProposalQueue (store ctx)))"
    and "ActiveProposalQueue (store ctx') =
           fold queue_insert (active_keys (ProposalsV2 data))
             (fold queue_insert (active_keys (Proposals data)) (ActiveProposalQueue (store ctx)))"
proof -
  let ?c = "fst (InitGenesis_import (InitGenesis_params ctx data) data)"
  from assms have "ctx' = ?c \<or> (\<exists>acc. ctx' = SetModuleAccount ?c acc)"
    by (auto simp add: InitGenesis_def Let_def split: option.splits prod.splits if_splits)
  then have q: "InactiveProposalQueue (store ctx') = InactiveProposalQueue (store ?c)
                \<and> ActiveProposalQueue (store ctx') = ActiveProposalQueue (store ?c)"
    by (auto simp add: SetModuleAccount_def store_write_def)
  show "InactiveProposalQueue (store ctx') =
           fold queue_insert (inactive_keys (ProposalsV2 data))
             (fold queue_insert (inactive_keys (Proposals data)) (InactiveProposalQueue (store ctx)))"
    by (simp add: q InitGenesis_import_queues InitGenesis_params_queues)
  show "ActiveProposalQueue (store ctx') =
           fold queue_insert (active_keys (ProposalsV2 data))
             (fold queue_insert (active_keys (Proposals data)) (ActiveProposalQueue (store ctx)))"
    by (simp add: q InitGenesis_import_queues InitGenesis_params_queues)
qed

lemma set_queue_times: "set (queue_times i q) = {t. (t, i) \<in> set q}"
  by (auto simp add: queue_times_def image_iff)

lemma distinct_singleton: "distinct ys \<Longrightarrow> set ys = {x} \<Longrightarrow> ys = [x]"
proof (cases ys)
  case Nil
  assume "set ys = {x}"
  with Nil show ?thesis by simp
next
  case (Cons y zs)
  assume d: "distinct ys" and s: "set ys = {x}"
  from s Cons have y: "y = x" by auto
  have "zs = []"
  proof (cases zs)
    case Nil
    then show ?thesis .
  next
    case (Cons z zs')
    with s \<open>ys = y # zs\<close> have "z = x" by auto
    with d y Cons \<open>ys = y # zs\<close> show ?thesis by simp
  qed
  with y Cons show ?thesis by simp
qed

lemma times_inactive_keys:
  "{t. (t, i) \<in> set (inactive_keys ps)} =
     {DepositEndTime p | p. p \<in> set ps \<and> Status p = StatusDepositPeriod \<and> ProposalId p = i}"
  by (auto simp add: inactive_keys_def)

lemma times_active_keys:
  "{t. (t, i) \<in> set (active_keys ps)} =
     {VotingEndTime p | p. p \<in> set ps \<and> Status p = StatusVotingPeriod \<and> ProposalId p = i}"
  by (auto simp add: active_keys_def)

lemma own_id:
  "distinct (map ProposalId ps) \<Longrightarrow> p \<in> set ps \<Longrightarrow> p' \<in> set ps \<Longrightarrow>
   ProposalId p' = ProposalId p \<Longrightarrow> p' = p"
  by (auto simp add: distinct_map inj_on_def)

lemma distinct_entries_queue_insert:
  "distinct (filter P (queue_insert k q)) = distinct (filter P q)"
proof (cases "k \<in> set q")
  case True
  then show ?thesis by (simp add: queue_insert_def)
next
  case False
  show ?thesis
  proof (cases "P k")
    case True
    have "mset (filter P (insort k q)) = mset (k # filter P q)"
      using True by simp
    then have "distinct (filter P (insort k q)) = distinct (k # filter P q)"
      by (rule mset_eq_imp_distinct_iff)
    with False show ?thesis by (simp add: queue_insert_def)
  next
    case no: False
    have "mset (filter P (insort k q)) = mset (filter P q)"
      using no by simp
    then have "distinct (filter P (insort k q)) = distinct (filter P q)"
      by (rule mset_eq_imp_distinct_iff)
    with False show ?thesis by (simp add: queue_insert_def)
  qed
qed

lemma distinct_entries_fold_queue_insert:
  "distinct (filter P (fold queue_insert ks q)) = distinct (filter P q)"
  by (induction ks arbitrary: q) (simp_all add: distinct_entries_queue_insert)

lemma distinct_entries_queue_times:
  "distinct (filter (\<lambda>(t, j). j = i) q) \<Longrightarrow> distinct (queue_times i q)"
  by (auto simp add: queue_times_def distinct_map inj_on_def)

lemma no_entries: "queue_times i q = [] \<Longrightarrow> filter (\<lambda>(t, j). j = i) q = []"
  by (simp add: queue_times_def)

lemma queue_times_imported:
  assumes "queue_times i q0 = []"
    and "{t. (t, i) \<in> set ks \<union> set ks'} = (if c then {t} else {})"
  shows "queue_times i (fold queue_insert ks' (fold queue_insert ks q0)) =
           (if c then [t] else [])"
proof -
  let ?q = "fold queue_insert ks' (fold queue_insert ks q0)"
  have "distinct (filter (\<lambda>(t, j). j = i) ?q)"
    using no_entries [OF assms(1)] by (simp add: distinct_entries_fold_queue_insert)
  then have d: "distinct (queue_times i ?q)"
    by (rule distinct_entries_queue_times)
  from assms(1) have "{t. (t, i) \<in> set q0} = {}"
    using set_queue_times [of i q0] by simp
  then have "set (queue_times i ?q) = {t. (t, i) \<in> set ks \<union> set ks'}"
    unfolding set_queue_times set_fold_queue_insert by auto
  with assms(2) have s: "set (queue_times i ?q) = (if c then {t} else {})"
    by simp
  from d s show ?thesis
    by (auto intro: distinct_singleton split: if_splits)
qed

lemma imported_times:
  fixes ps :: "'a Proposal list" and ps' :: "'b Proposal list" and p :: "'a Proposal"
  assumes d: "distinct (map ProposalId ps)"
    and other: "ProposalId p \<notin> ProposalId ` set ps'"
    and p: "p \<in> set ps"
  shows "{t. (t, ProposalId p) \<in> set (inactive_keys ps) \<union> set (inactive_keys ps')} =
           (if Status p = StatusDepositPeriod then {DepositEndTime p} else {})"
    and "{t. (t, ProposalId p) \<in> set (active_keys ps) \<union> set (active_keys ps')} =
           (if Status p = StatusVotingPeriod then {VotingEndTime p} else {})"
proof -
  have none: "{t. (t, ProposalId p) \<in> set (inactive_keys ps')} = {}"
    "{t. (t, ProposalId p) \<in> set (active_keys ps')} = {}"
    using other by (auto simp add: inactive_keys_def active_keys_def)
  have own: "\<And>p'. p' \<in> set ps \<Longrightarrow> ProposalId p' = ProposalId p \<Longrightarrow> p' = p"
    using own_id [OF d p] by blast
  have oi: "{t. (t, ProposalId p) \<in> set (inactive_keys ps)} =
              (if Status p = StatusDepositPeriod then {DepositEndTime p} else {})"
    unfolding times_inactive_keys using p own by auto
  have oa: "{t. (t, ProposalId p) \<in> set (active_keys ps)} =
              (if Status p = StatusVotingPeriod then {VotingEndTime p} else {})"
    unfolding times_active_keys using p own by auto
  have "{t. (t, ProposalId p) \<in> set (inactive_keys ps) \<union> set (inactive_keys ps')} =
          {t. (t, ProposalId p) \<in> set (inactive_keys ps)}
          \<union> {t. (t, ProposalId p) \<in> set (inactive_keys ps')}"
    by auto
  then show "{t. (t, ProposalId p) \<in> set (inactive_keys ps) \<union> set (inactive_keys ps')} =
           (if Status p = StatusDepositPeriod then {DepositEndTime p} else {})"
    unfolding none oi by simp
  have "{t. (t, ProposalId p) \<in> set (active_keys ps) \<union> set (active_keys ps')} =
          {t. (t, ProposalId p) \<in> set (active_keys ps)}
          \<union> {t. (t, ProposalId p) \<in> set (active_keys ps')}"
    by auto
  then show "{t. (t, ProposalId p) \<in> set (active_keys ps) \<union> set (active_keys ps')} =
           (if Status p = StatusVotingPeriod then {VotingEndTime p} else {})"
    unfolding none oa by simp
qed

lemma demo_genesis_ok:
  "\<exists>ctx'. InitGenesis (demo_bank {#''stake'', ''stake''#}) demo_keeper (demo_ctx empty_store) demo_genesis = Inr ctx'"
  by (simp add: genesis_defs demo_genesis_def demo_bank_def demo_keeper_def demo_ctx_def
      empty_store_def genesis_proposal_def)

text \<open>
  C9. Queue membership after import follows from the status of each record, for a
  well-formed snapshot imported into a store that does not yet queue its proposals. For
  an import that does not abort, of proposals whose ids are pairwise distinct over both
  lists, into a store in which no queue entry carries the id of an imported proposal:
  every imported proposal, V1 or V2, stands in the queues as its status says. One in
  DepositPeriod has exactly one entry in the inactive queue, under its deposit end
  time, and none in the active queue; one in VotingPeriod has exactly one entry in the
  active queue, under its voting end time, and none in the inactive queue; one of any
  other status has no entry in either.
\<close>

theorem InitGenesis_queues_from_status:
  assumes ok: "InitGenesis bk k ctx data = Inr ctx'"
    and fresh: "\<forall>i \<in> ProposalId ` set (Proposals data) \<union> ProposalId ` set (ProposalsV2 data).
                  queue_times i (InactiveProposalQueue (store ctx)) = []
                  \<and> queue_times i (ActiveProposalQueue (store ctx)) = []"
    and ids: "distinct (map ProposalId (Proposals data) @ map ProposalId (ProposalsV2 data))"
  shows "(\<forall>p \<in> set (Proposals data). queues_match_status (store ctx') p)
       \<and> (\<forall>p \<in> set (ProposalsV2 data). queues_match_status (store ctx') p)"
proof -
  note q = InitGenesis_queues [OF ok]
  from ids have d1: "distinct (map ProposalId (Proposals data))"
    and d2: "distinct (map ProposalId (ProposalsV2 data))"
    and disj: "ProposalId ` set (Proposals data) \<inter> ProposalId ` set (ProposalsV2 data) = {}"
    by auto
  have "queues_match_status (store ctx') p" if p: "p \<in> set (Proposals data)" for p
  proof -
    from disj p have o: "ProposalId p \<notin> ProposalId ` set (ProposalsV2 data)" by auto
    from fresh p have f: "queue_times (ProposalId p) (InactiveProposalQueue (store ctx)) = []"
      "queue_times (ProposalId p) (ActiveProposalQueue (store ctx)) = []"
      by auto
    show ?thesis
      unfolding queues_match_status_def q
      using queue_times_imported [OF f(1) imported_times(1) [OF d1 o p]]
        queue_times_imported [OF f(2) imported_times(2) [OF d1 o p]]
      by simp
  qed
  moreover have "queues_match_status (store ctx') p" if p: "p \<in> set (ProposalsV2 data)" for p
  proof -
    from disj p have o: "ProposalId p \<notin> ProposalId ` set (Proposals data)" by auto
    from fresh p have f: "queue_times (ProposalId p) (InactiveProposalQueue (store ctx)) = []"
      "queue_times (ProposalId p) (ActiveProposalQueue (store ctx)) = []"
      by auto
    have i: "{t. (t, ProposalId p) \<in> set (inactive_keys (Proposals data))
                  \<union> set (inactive_keys (ProposalsV2 data))} =
               (if Status p = StatusDepositPeriod then {DepositEndTime p} else {})"
      using imported_times(1) [OF d2 o p] by (simp add: Un_commute)
    have a: "{t. (t, ProposalId p) \<in> set (active_keys (Proposals data))
                  \<union> set (active_keys (ProposalsV2 data))} =
               (if Status p = StatusVotingPeriod then {VotingEndTime p} else {})"
      using imported_times(2) [OF d2 o p] by (simp add: Un_commute)
    show ?thesis
      unfolding queues_match_status_def q
      using queue_times_imported [OF f(1) i] queue_times_imported [OF f(2) a]
      by simp
  qed
  ultimately show ?thesis by blast
qed

theorem InitGenesis_queues_from_status_witness:
  "\<exists>ctx'. InitGenesis (demo_bank {#''stake'', ''stake''#}) demo_keeper (demo_ctx empty_store)
             demo_genesis = Inr ctx'
     \<and> queue_times 1 (InactiveProposalQueue (store ctx')) = [5]
     \<and> queue_times 1 (ActiveProposalQueue (store ctx')) = []
     \<and> queue_times 3 (InactiveProposalQueue (store ctx')) = []
     \<and> queue_times 3 (ActiveProposalQueue (store ctx')) = [10]
     \<and> queue_times 4 (InactiveProposalQueue (store ctx')) = []
     \<and> queue_times 4 (ActiveProposalQueue (store ctx')) = []
     \<and> queue_times 7 (ActiveProposalQueue (store ctx')) = [10]
     \<and> queue_times 8 (InactiveProposalQueue (store ctx')) = [6]"
proof -
  obtain ctx' where ok: "InitGenesis (demo_bank {#''stake'', ''stake''#}) demo_keeper
      (demo_ctx empty_store) demo_genesis = Inr ctx'"
    using demo_genesis_ok by blast
  have fresh: "\<forall>i \<in> ProposalId ` set (Proposals demo_genesis)
                     \<union> ProposalId ` set (ProposalsV2 demo_genesis).
                 queue_times i (InactiveProposalQueue (store (demo_ctx empty_store))) = []
                 \<and> queue_times i (ActiveProposalQueue (store (demo_ctx empty_store))) = []"
    by (simp add: demo_ctx_def empty_store_def queue_times_def)
  have ids: "distinct (map ProposalId (Proposals demo_genesis) @ map ProposalId (ProposalsV2 demo_genesis))"
    by (simp add: demo_genesis_def genesis_proposal_def)
  note m = InitGenesis_queues_from_status [OF ok fresh ids]
  have "queues_match_status (store ctx') (genesis_proposal 1 StatusDepositPeriod 5 0 demo_content)"
       "queues_match_status (store ctx') (genesis_proposal 3 StatusVotingPeriod 4 10 demo_content)"
       "queues_match_status (store ctx') (genesis_proposal 4 StatusPassed 2 3 demo_content)"
    using m by (simp_all add: demo_genesis_def)
  moreover have "queues_match_status (store ctx') (genesis_proposal 7 StatusVotingPeriod 4 10 [''m1''])"
       "queues_match_status (store ctx') (genesis_proposal 8 StatusDepositPeriod 6 0 [''m2''])"
    using m by (simp_all add: demo_genesis_def)
  ultimately show ?thesis
    using ok by (simp add: queues_match_status_def genesis_proposal_def)
qed

text \<open>
  C9, as the claim is worded (for every import): two imports that do not abort and
  after which an imported proposal does not stand in the queues as its status says.
  In the first, two records share the id 1, one in DepositPeriod and one Passed: the
  loop queues the id for the first record and stores the second record over it, so the
  Passed record is in the inactive queue. In the second, the store already has the id
  1 in the active queue when a record of id 1 in DepositPeriod is imported: the import
  adds the inactive entry and removes nothing, so the id is in both queues.
\<close>

theorem InitGenesis_queues_counterexample:
  "(\<exists>ctx'. InitGenesis (demo_bank {#}) demo_keeper (demo_ctx empty_store) dup_genesis = Inr ctx'
      \<and> genesis_proposal 1 StatusPassed 2 3 demo_content \<in> set (Proposals dup_genesis)
      \<and> InactiveProposalQueue (store ctx') = [(5, 1)]
      \<and> \<not> queues_match_status (store ctx') (genesis_proposal 1 StatusPassed 2 3 demo_content))
   \<and> (\<exists>ctx'. InitGenesis (demo_bank {#}) demo_keeper (demo_ctx stale_store) one_genesis = Inr ctx'
      \<and> genesis_proposal 1 StatusDepositPeriod 5 0 demo_content \<in> set (Proposals one_genesis)
      \<and> ActiveProposalQueue (store ctx') = [(3, 1)]
      \<and> \<not> queues_match_status (store ctx') (genesis_proposal 1 StatusDepositPeriod 5 0 demo_content))"
  by (simp add: genesis_defs dup_genesis_def one_genesis_def stale_store_def demo_genesis_def
        demo_bank_def demo_keeper_def demo_ctx_def empty_store_def genesis_proposal_def
        queues_match_status_def queue_times_def)

section \<open>Decimal ids are injective\<close>

lemma digit_inj: "a < 10 \<Longrightarrow> b < 10 \<Longrightarrow> digit a = digit b \<Longrightarrow> a = b"
proof -
  assume a: "a < 10" and b: "b < 10" and e: "digit a = digit b"
  have d: "distinct ''0123456789''" by simp
  have "length ''0123456789'' = 10" by simp
  with a b e d show "a = b"
    unfolding digit_def by (metis nth_eq_iff_index_eq)
qed

lemma fmt_d_length: "n < 10 \<longleftrightarrow> length (fmt_d n) = 1"
proof (cases "n < 10")
  case True
  then show ?thesis by (simp add: fmt_d.simps)
next
  case False
  have "fmt_d (n div 10) \<noteq> []"
    by (subst fmt_d.simps) simp
  with False show ?thesis
    by (subst fmt_d.simps) simp
qed

lemma fmt_d_inj: "fmt_d a = fmt_d b \<Longrightarrow> a = b"
proof (induction a arbitrary: b rule: fmt_d.induct)
  case (1 n)
  show ?case
  proof (cases "n < 10")
    case True
    with "1.prems" have b: "b < 10"
      using fmt_d_length [of n] fmt_d_length [of b] by simp
    with True "1.prems" show ?thesis
      by (simp add: fmt_d.simps digit_inj)
  next
    case False
    with "1.prems" have b: "\<not> b < 10"
      using fmt_d_length [of n] fmt_d_length [of b] by simp
    from "1.prems" False b
    have "fmt_d (n div 10) @ [digit (n mod 10)] = fmt_d (b div 10) @ [digit (b mod 10)]"
      by (simp add: fmt_d.simps [of n] fmt_d.simps [of b])
    then have q: "fmt_d (n div 10) = fmt_d (b div 10)" and r: "digit (n mod 10) = digit (b mod 10)"
      by simp_all
    from "1.IH" [OF False q] have "n div 10 = b div 10" .
    moreover from r have "n mod 10 = b mod 10"
      by (intro digit_inj) simp_all
    ultimately show ?thesis
      by (metis div_mult_mod_eq)
  qed
qed

lemma fmt_d_eq_iff [simp]: "fmt_d a = fmt_d b \<longleftrightarrow> a = b"
  using fmt_d_inj by blast

section \<open>The view of a proposal under the keeper's writes\<close>

lemma queue_times_filter:
  "queue_times i (filter (\<lambda>(t, j'). j' \<noteq> j) q) = (if i = j then [] else queue_times i q)"
  by (induction q) (auto simp add: queue_times_def)

lemma queue_times_removeAll:
  "queue_times i (removeAll (t, j) q) =
     (if i = j then removeAll t (queue_times i q) else queue_times i q)"
  by (induction q) (auto simp add: queue_times_def)

lemma deposits_of_filter_neq:
  "deposits_of i (filter (\<lambda>d. DepositProposalId d \<noteq> j) ds) =
     (if i = j then [] else deposits_of i ds)"
  by (induction ds) (auto simp add: deposits_of_def)

lemma deposits_of_filter_eq:
  "deposits_of i (filter (\<lambda>d. DepositProposalId d = j) ds) =
     (if i = j then deposits_of i ds else [])"
  by (induction ds) (auto simp add: deposits_of_def)

lemma deposits_of_append [simp]:
  "deposits_of i (xs @ ys) = deposits_of i xs @ deposits_of i ys"
  by (simp add: deposits_of_def)

lemmas view_simps = queue_times_filter queue_times_removeAll deposits_of_filter_neq
  deposits_of_filter_eq

lemma obs_DeleteProposal:
  "obs i (DeleteProposal c j) =
     (if i = j then (obs i c)\<lparr>o_proposal := None, o_proposalV2 := None,
                              o_inactive := [], o_active := []\<rparr>
      else obs i c)"
  by (simp add: obs_def DeleteProposal_def store_write_def view_simps)

lemma obs_DeleteAndBurnDeposits:
  "obs i (DeleteAndBurnDeposits c j) =
     (if i = j then (obs i c)\<lparr>o_deposits := [],
                              o_burned := o_burned (obs i c) @ o_deposits (obs i c)\<rparr>
      else obs i c)"
  by (simp add: obs_def DeleteAndBurnDeposits_def store_write_def view_simps)

lemma obs_RefundAndDeleteDeposits:
  "obs i (RefundAndDeleteDeposits c j) =
     (if i = j then (obs i c)\<lparr>o_deposits := [],
                              o_refunded := o_refunded (obs i c) @ o_deposits (obs i c)\<rparr>
      else obs i c)"
  by (simp add: obs_def RefundAndDeleteDeposits_def store_write_def view_simps)

lemma obs_SetProposal:
  "obs i (SetProposal c p) =
     (if i = ProposalId p then (obs i c)\<lparr>o_proposal := Some p\<rparr> else obs i c)"
  by (simp add: obs_def SetProposal_def store_write_def)

lemma obs_SetProposalV2:
  "obs i (SetProposalV2 c p) =
     (if i = ProposalId p then (obs i c)\<lparr>o_proposalV2 := Some p\<rparr> else obs i c)"
  by (simp add: obs_def SetProposalV2_def store_write_def)

lemma obs_RemoveFromActiveProposalQueue:
  "obs i (RemoveFromActiveProposalQueue c j t) =
     (if i = j then (obs i c)\<lparr>o_active := removeAll t (o_active (obs i c))\<rparr> else obs i c)"
  by (simp add: obs_def RemoveFromActiveProposalQueue_def store_write_def view_simps)

lemma obs_AfterProposalFailedMinDeposit:
  "obs i (AfterProposalFailedMinDeposit c j) =
     (if i = j
      then (obs i c)\<lparr>o_hooks := o_hooks (obs i c) @ [AfterProposalFailedMinDeposit_called j]\<rparr>
      else obs i c)"
  by (simp add: obs_def AfterProposalFailedMinDeposit_def store_write_def)

lemma obs_AfterProposalVotingPeriodEnded:
  "obs i (AfterProposalVotingPeriodEnded c j) =
     (if i = j
      then (obs i c)\<lparr>o_hooks := o_hooks (obs i c) @ [AfterProposalVotingPeriodEnded_called j]\<rparr>
      else obs i c)"
  by (simp add: obs_def AfterProposalVotingPeriodEnded_def store_write_def)

lemma obs_logger_Info: "obs i (logger_Info m kvs c) = obs i c"
  by (simp add: obs_def logger_Info_def)

lemma obs_EmitEvent_inactive:
  "obs i (EmitEvent (Event EventTypeInactiveProposal
            [(AttributeKeyProposalID, fmt_d j), (AttributeKeyProposalResult, tag)]) c) =
     (if i = j
      then (obs i c)\<lparr>o_events := o_events (obs i c) @
             [Event EventTypeInactiveProposal
                [(AttributeKeyProposalID, fmt_d j), (AttributeKeyProposalResult, tag)]]\<rparr>
      else obs i c)"
  by (simp add: obs_def EmitEvent_def gov_event_of_def AttributeKeyProposalID_def
        AttributeKeyProposalResult_def)

lemma obs_EmitEvent_active:
  "obs i (EmitEvent (Event EventTypeActiveProposal
            [(AttributeKeyProposalID, fmt_d j), (AttributeKeyProposalResult, tag)]) c) =
     (if i = j
      then (obs i c)\<lparr>o_events := o_events (obs i c) @
             [Event EventTypeActiveProposal
                [(AttributeKeyProposalID, fmt_d j), (AttributeKeyProposalResult, tag)]]\<rparr>
      else obs i c)"
  by (simp add: obs_def EmitEvent_def gov_event_of_def AttributeKeyProposalID_def
        AttributeKeyProposalResult_def)

lemma not_gov_event_of: "\<not> is_gov_event e \<Longrightarrow> \<not> gov_event_of i e"
  by (cases e) (simp add: is_gov_event_def gov_event_of_def)

lemma obs_EmitEvents:
  "\<forall>e \<in> set es. \<not> is_gov_event e \<Longrightarrow> obs i (EmitEvents es c) = obs i c"
  by (simp add: obs_def EmitEvents_def not_gov_event_of)

lemma fold_keeps_gov:
  "\<forall>f \<in> set fs. keeps_gov f \<Longrightarrow> keeps_gov (fold (\<lambda>f s. f s) fs)"
  by (induction fs) (simp_all add: keeps_gov_def)

lemma obs_writeCache:
  assumes "scope_ok cc"
  shows "obs i (writeCache cc c) = obs i c"
proof -
  from assms have "keeps_gov (fold (\<lambda>f s. f s) (buffered cc))"
    by (simp add: scope_ok_def fold_keeps_gov)
  then show ?thesis
    by (simp add: obs_def writeCache_eq keeps_gov_def)
qed

lemmas obs_simps = obs_DeleteProposal obs_DeleteAndBurnDeposits obs_RefundAndDeleteDeposits
  obs_SetProposal obs_SetProposalV2 obs_RemoveFromActiveProposalQueue
  obs_AfterProposalFailedMinDeposit obs_AfterProposalVotingPeriodEnded obs_logger_Info
  obs_EmitEvent_inactive obs_EmitEvent_active

lemma keys_ok_cong:
  "proposals s' = proposals s \<Longrightarrow> proposalsV2 s' = proposalsV2 s \<Longrightarrow> keys_ok s' = keys_ok s"
  by (simp add: keys_ok_def)

lemma keys_ok_DeleteProposal: "keys_ok (store c) \<Longrightarrow> keys_ok (store (DeleteProposal c j))"
  by (simp add: keys_ok_def DeleteProposal_def store_write_def)

lemma keys_ok_SetProposal: "keys_ok (store c) \<Longrightarrow> keys_ok (store (SetProposal c p))"
  by (simp add: keys_ok_def SetProposal_def store_write_def)

lemma keys_ok_SetProposalV2: "keys_ok (store c) \<Longrightarrow> keys_ok (store (SetProposalV2 c p))"
  by (simp add: keys_ok_def SetProposalV2_def store_write_def)

lemma keys_ok_other [simp]:
  "keys_ok (store (DeleteAndBurnDeposits c j)) = keys_ok (store c)"
  "keys_ok (store (RefundAndDeleteDeposits c j)) = keys_ok (store c)"
  "keys_ok (store (settle_deposits c j b)) = keys_ok (store c)"
  "keys_ok (store (RemoveFromActiveProposalQueue c j t)) = keys_ok (store c)"
  "keys_ok (store (AfterProposalFailedMinDeposit c j)) = keys_ok (store c)"
  "keys_ok (store (AfterProposalVotingPeriodEnded c j)) = keys_ok (store c)"
  "keys_ok (store (logger_Info m kvs c)) = keys_ok (store c)"
  "keys_ok (store (EmitEvent e c)) = keys_ok (store c)"
  "keys_ok (store (EmitEvents es c)) = keys_ok (store c)"
  by (simp_all add: keys_ok_def DeleteAndBurnDeposits_def RefundAndDeleteDeposits_def
        settle_deposits_def RemoveFromActiveProposalQueue_def AfterProposalFailedMinDeposit_def
        AfterProposalVotingPeriodEnded_def logger_Info_def EmitEvent_def EmitEvents_def
        store_write_def)

lemma keys_ok_writeCache:
  assumes "scope_ok cc"
  shows "keys_ok (store (writeCache cc c)) = keys_ok (store c)"
proof -
  from assms have "keeps_gov (fold (\<lambda>f s. f s) (buffered cc))"
    by (simp add: scope_ok_def fold_keeps_gov)
  then show ?thesis
    by (intro keys_ok_cong) (simp_all add: writeCache_eq keeps_gov_def)
qed

lemma scope_ok_CacheContext [simp]: "scope_ok (CacheContext c)"
  by (simp add: scope_ok_def CacheContext_def)

lemma obs_settle_deposits:
  "obs i (settle_deposits c j b) =
     (if i = j
      then (if b then (obs i c)\<lparr>o_deposits := [],
                        o_burned := o_burned (obs i c) @ o_deposits (obs i c)\<rparr>
            else (obs i c)\<lparr>o_deposits := [],
                        o_refunded := o_refunded (obs i c) @ o_deposits (obs i c)\<rparr>)
      else obs i c)"
  by (simp add: settle_deposits_def obs_simps)

section \<open>The callbacks of the four drains\<close>

lemma inactive_cb_continues [simp]:
  "fst (inactive_proposal_cb k c p) = False" "fst (inactive_proposal_cb_V2 k c p2) = False"
  by (simp_all add: inactive_proposal_cb_def inactive_proposal_cb_V2_def Let_def)

lemma obs_inactive_cb:
  "obs i (snd (inactive_proposal_cb k c p)) =
     (if i = ProposalId p
      then (obs i c)\<lparr>o_proposal := None, o_proposalV2 := None, o_inactive := [],
              o_active := [], o_deposits := [],
              o_burned := o_burned (obs i c) @ o_deposits (obs i c),
              o_hooks := o_hooks (obs i c) @ [AfterProposalFailedMinDeposit_called i],
              o_events := o_events (obs i c) @ [dropped_event i]\<rparr>
      else obs i c)"
  by (simp add: inactive_proposal_cb_def Let_def obs_simps dropped_event_def)

lemma obs_inactive_cb_V2:
  "obs i (snd (inactive_proposal_cb_V2 k c p)) =
     (if i = ProposalId p
      then (obs i c)\<lparr>o_proposal := None, o_proposalV2 := None, o_inactive := [],
              o_active := [], o_deposits := [],
              o_burned := o_burned (obs i c) @ o_deposits (obs i c),
              o_hooks := o_hooks (obs i c) @ [AfterProposalFailedMinDeposit_called i],
              o_events := o_events (obs i c) @ [dropped_event i]\<rparr>
      else obs i c)"
  by (simp add: inactive_proposal_cb_V2_def Let_def obs_simps dropped_event_def)

lemma keys_ok_inactive_cb:
  "keys_ok (store c) \<Longrightarrow> keys_ok (store (snd (inactive_proposal_cb k c p)))"
  "keys_ok (store c) \<Longrightarrow> keys_ok (store (snd (inactive_proposal_cb_V2 k c p2)))"
  by (simp_all add: inactive_proposal_cb_def inactive_proposal_cb_V2_def Let_def
        keys_ok_DeleteProposal)

text \<open>The payload of a proposal that passes leaves every view as it is.\<close>

lemma execute_content_view:
  assumes "handlers_keep_gov k"
  shows "\<exists>c2 st msg. execute_content k c p = (c2, p\<lparr>Status := st\<rparr>, status_tag st, msg)
           \<and> (st = StatusPassed \<or> st = StatusFailed)
           \<and> (\<forall>i. obs i c2 = obs i c) \<and> keys_ok (store c2) = keys_ok (store c)"
proof -
  obtain r cc where h: "GetRoute k (ProposalRoute (Payload p)) (CacheContext c) (Payload p) = (r, cc)"
    by (cases "GetRoute k (ProposalRoute (Payload p)) (CacheContext c) (Payload p)")
  from assms have ok: "scope_ok cc"
    using h scope_ok_CacheContext [of c] unfolding handlers_keep_gov_def
    by (metis snd_conv)
  then have ev: "\<forall>e \<in> set (events cc). \<not> is_gov_event e"
    by (simp add: scope_ok_def)
  show ?thesis
  proof (cases r)
    case None
    let ?c2 = "writeCache cc (EmitEvents (events cc) c)"
    from h None have "execute_content k c p =
        (?c2, p\<lparr>Status := StatusPassed\<rparr>, status_tag StatusPassed, ''passed'')"
      by (simp add: execute_content_def status_tag_def)
    moreover from ok ev have "\<forall>i. obs i ?c2 = obs i c"
      by (simp add: obs_writeCache obs_EmitEvents)
    moreover from ok have "keys_ok (store ?c2) = keys_ok (store c)"
      by (simp add: keys_ok_writeCache)
    ultimately show ?thesis by blast
  next
    case (Some e)
    with h have "execute_content k c p =
        (c, p\<lparr>Status := StatusFailed\<rparr>, status_tag StatusFailed,
         ''passed, but failed on execution: '' @ error_text e)"
      by (simp add: execute_content_def status_tag_def)
    then show ?thesis by blast
  qed
qed

lemma messages_loop_scope_ok:
  "handlers_keep_gov k \<Longrightarrow> scope_ok cc \<Longrightarrow> scope_ok (snd (messages_loop k ms n idx cc))"
proof (induction ms arbitrary: n idx cc)
  case Nil
  then show ?case by simp
next
  case (Cons m ms)
  obtain r cc' where h: "Handler k m cc m = (r, cc')"
    by (cases "Handler k m cc m")
  from Cons.prems have ok: "scope_ok cc'"
    using h unfolding handlers_keep_gov_def by (metis snd_conv)
  show ?case
  proof (cases r)
    case None
    with h Cons.IH [OF Cons.prems(1) ok] show ?thesis by simp
  next
    case (Some e)
    with h ok show ?thesis by simp
  qed
qed

lemma execute_messages_view:
  assumes "handlers_keep_gov k"
  shows "\<exists>c2 st msg. execute_messages k c p = (c2, p\<lparr>Status := st\<rparr>, status_tag st, msg)
           \<and> (st = StatusPassed \<or> st = StatusFailed)
           \<and> (\<forall>i. obs i c2 = obs i c) \<and> keys_ok (store c2) = keys_ok (store c)"
proof -
  obtain idx cc where h: "messages_loop k (Payload p) 0 0 (CacheContext c) = (idx, cc)"
    by (cases "messages_loop k (Payload p) 0 0 (CacheContext c)")
  have ok: "scope_ok cc"
    using messages_loop_scope_ok [OF assms scope_ok_CacheContext, of "Payload p" 0 0 c] h
    by simp
  then have ev: "\<forall>e \<in> set (events cc). \<not> is_gov_event e"
    by (simp add: scope_ok_def)
  let ?c2 = "writeCache cc (EmitEvents (events cc) c)"
  from h have "execute_messages k c p =
      (?c2, p\<lparr>Status := StatusPassed\<rparr>, status_tag StatusPassed, ''passed'')"
    by (simp add: execute_messages_def status_tag_def)
  moreover from ok ev have "\<forall>i. obs i ?c2 = obs i c"
    by (simp add: obs_writeCache obs_EmitEvents)
  moreover from ok have "keys_ok (store ?c2) = keys_ok (store c)"
    by (simp add: keys_ok_writeCache)
  ultimately show ?thesis by blast
qed

text \<open>The callbacks of the active queue.\<close>

lemma obs_conclude_proposal:
  "obs i (snd (conclude_proposal c p tr tag msg)) =
     (if i = ProposalId p
      then (obs i c)\<lparr>o_proposal := Some (p\<lparr>FinalTallyResult := tr\<rparr>),
              o_active := removeAll (VotingEndTime p) (o_active (obs i c)),
              o_hooks := o_hooks (obs i c) @ [AfterProposalVotingPeriodEnded_called i],
              o_events := o_events (obs i c) @
                [Event EventTypeActiveProposal
                   [(AttributeKeyProposalID, fmt_d i), (AttributeKeyProposalResult, tag)]]\<rparr>
      else obs i c)"
  by (simp add: conclude_proposal_def Let_def obs_simps)

lemma obs_conclude_proposal_V2:
  "obs i (snd (conclude_proposal_V2 c p tr tag msg)) =
     (if i = ProposalId p
      then (obs i c)\<lparr>o_proposalV2 := Some (p\<lparr>FinalTallyResult := tr\<rparr>),
              o_active := removeAll (VotingEndTime p) (o_active (obs i c)),
              o_hooks := o_hooks (obs i c) @ [AfterProposalVotingPeriodEnded_called i],
              o_events := o_events (obs i c) @
                [Event EventTypeActiveProposal
                   [(AttributeKeyProposalID, fmt_d i), (AttributeKeyProposalResult, tag)]]\<rparr>
      else obs i c)"
  by (simp add: conclude_proposal_V2_def Let_def obs_simps)

lemma keys_ok_conclude:
  "keys_ok (store c) \<Longrightarrow> keys_ok (store (snd (conclude_proposal c p tr tag msg)))"
  "keys_ok (store c) \<Longrightarrow> keys_ok (store (snd (conclude_proposal_V2 c p2 tr tag msg)))"
  by (simp_all add: conclude_proposal_def conclude_proposal_V2_def Let_def
        keys_ok_SetProposal keys_ok_SetProposalV2)

lemma active_cb_continues [simp]:
  "fst (active_proposal_cb k c p) = False" "fst (active_proposal_cb_V2 k c p2) = False"
  by (simp_all add: active_proposal_cb_def active_proposal_cb_V2_def conclude_proposal_def
        conclude_proposal_V2_def Let_def split: prod.splits)

lemma active_cb_view:
  assumes "handlers_keep_gov k"
  shows "\<exists>st tr b. (st = StatusPassed \<or> st = StatusRejected \<or> st = StatusFailed)
           \<and> (\<forall>i. obs i (snd (active_proposal_cb k c p)) =
                 (if i = ProposalId p
                  then (resolved_view i (obs i c) b (VotingEndTime p) st)
                         \<lparr>o_proposal := Some (p\<lparr>Status := st, FinalTallyResult := tr\<rparr>)\<rparr>
                  else obs i c))
           \<and> (keys_ok (store c) \<longrightarrow> keys_ok (store (snd (active_proposal_cb k c p))))"
proof -
  obtain passes b tr where t: "Tally k c (ProposalId p) = (passes, b, tr)"
    by (cases "Tally k c (ProposalId p)")
  let ?c1 = "settle_deposits c (ProposalId p) b"
  obtain c2 st msg where
    e: "(if passes then execute_content k ?c1 p
         else (?c1, p\<lparr>Status := StatusRejected\<rparr>, AttributeValueProposalRejected, ''rejected''))
        = (c2, p\<lparr>Status := st\<rparr>, status_tag st, msg)"
    and st: "st = StatusPassed \<or> st = StatusRejected \<or> st = StatusFailed"
    and o: "\<forall>i. obs i c2 = obs i ?c1" and ko: "keys_ok (store c2) = keys_ok (store ?c1)"
  proof (cases passes)
    case True
    from execute_content_view [OF assms, of ?c1 p] True that show ?thesis by auto
  next
    case False
    with that [of ?c1 StatusRejected "''rejected''"] show ?thesis
      by (simp add: status_tag_def)
  qed
  have r: "active_proposal_cb k c p =
             conclude_proposal c2 (p\<lparr>Status := st\<rparr>) tr (status_tag st) msg"
    using t e by (simp add: active_proposal_cb_def)
  have "\<forall>i. obs i (snd (active_proposal_cb k c p)) =
          (if i = ProposalId p
           then (resolved_view i (obs i c) b (VotingEndTime p) st)
                  \<lparr>o_proposal := Some (p\<lparr>Status := st, FinalTallyResult := tr\<rparr>)\<rparr>
           else obs i c)"
    using o
    by (simp add: r obs_conclude_proposal obs_settle_deposits resolved_view_def
          terminal_event_def)
  moreover have "keys_ok (store c) \<longrightarrow> keys_ok (store (snd (active_proposal_cb k c p)))"
    using ko by (simp add: r keys_ok_conclude)
  ultimately show ?thesis using st by blast
qed

lemma active_cb_V2_view:
  assumes "handlers_keep_gov k"
  shows "\<exists>st tr b. (st = StatusPassed \<or> st = StatusRejected \<or> st = StatusFailed)
           \<and> (\<forall>i. obs i (snd (active_proposal_cb_V2 k c p)) =
                 (if i = ProposalId p
                  then (resolved_view i (obs i c) b (VotingEndTime p) st)
                         \<lparr>o_proposalV2 := Some (p\<lparr>Status := st, FinalTallyResult := tr\<rparr>)\<rparr>
                  else obs i c))
           \<and> (keys_ok (store c) \<longrightarrow> keys_ok (store (snd (active_proposal_cb_V2 k c p))))"
proof -
  obtain passes b tr where t: "Tally k c (ProposalId p) = (passes, b, tr)"
    by (cases "Tally k c (ProposalId p)")
  let ?c1 = "settle_deposits c (ProposalId p) b"
  obtain c2 st msg where
    e: "(if passes then execute_messages k ?c1 p
         else (?c1, p\<lparr>Status := StatusRejected\<rparr>, AttributeValueProposalRejected, ''rejected''))
        = (c2, p\<lparr>Status := st\<rparr>, status_tag st, msg)"
    and st: "st = StatusPassed \<or> st = StatusRejected \<or> st = StatusFailed"
    and o: "\<forall>i. obs i c2 = obs i ?c1" and ko: "keys_ok (store c2) = keys_ok (store ?c1)"
  proof (cases passes)
    case True
    from execute_messages_view [OF assms, of ?c1 p] True that show ?thesis by auto
  next
    case False
    with that [of ?c1 StatusRejected "''rejected''"] show ?thesis
      by (simp add: status_tag_def)
  qed
  have r: "active_proposal_cb_V2 k c p =
             conclude_proposal_V2 c2 (p\<lparr>Status := st\<rparr>) tr (status_tag st) msg"
    using t e by (simp add: active_proposal_cb_V2_def)
  have "\<forall>i. obs i (snd (active_proposal_cb_V2 k c p)) =
          (if i = ProposalId p
           then (resolved_view i (obs i c) b (VotingEndTime p) st)
                  \<lparr>o_proposalV2 := Some (p\<lparr>Status := st, FinalTallyResult := tr\<rparr>)\<rparr>
           else obs i c)"
    using o
    by (simp add: r obs_conclude_proposal_V2 obs_settle_deposits resolved_view_def
          terminal_event_def)
  moreover have "keys_ok (store c) \<longrightarrow> keys_ok (store (snd (active_proposal_cb_V2 k c p)))"
    using ko by (simp add: r keys_ok_conclude)
  ultimately show ?thesis using st by blast
qed

section \<open>The iteration over a queue\<close>

lemma iterate_queue_append:
  assumes "\<And>c q. fst (cb c q) = False"
  shows "iterate_queue get cb (xs @ ys) c = iterate_queue get cb ys (iterate_queue get cb xs c)"
proof (induction xs arbitrary: c)
  case Nil
  then show ?case by simp
next
  case (Cons x xs)
  obtain t j where x: "x = (t, j)" by (cases x)
  show ?case
  proof (cases "get c j")
    case None
    with x Cons.IH show ?thesis by simp
  next
    case (Some q)
    obtain b c' where r: "cb c q = (b, c')" by (cases "cb c q")
    with assms [of c q] have "b = False" by simp
    with x Some r Cons.IH show ?thesis by simp
  qed
qed

text \<open>
  A drain whose callbacks are only ever handed proposals other than \<open>i\<close> leaves the
  view of \<open>i\<close> as it was.
\<close>

lemma iterate_queue_frame:
  assumes cont: "\<And>c q. fst (cb c q) = False"
    and frame: "\<And>c q. ProposalId q \<noteq> i \<Longrightarrow> obs i (snd (cb c q)) = obs i c"
    and keys: "\<And>c q. keys_ok (store c) \<Longrightarrow> keys_ok (store (snd (cb c q)))"
    and get: "\<And>c j q. keys_ok (store c) \<Longrightarrow> get c j = Some q \<Longrightarrow> ProposalId q = j"
    and skip: "\<And>c. obs i c = v \<Longrightarrow> i \<in> snd ` set ks \<Longrightarrow> get c i = None"
    and c: "keys_ok (store c)" "obs i c = v"
  shows "obs i (iterate_queue get cb ks c) = v \<and> keys_ok (store (iterate_queue get cb ks c))"
  using skip c
proof (induction ks arbitrary: c)
  case Nil
  then show ?case by simp
next
  case (Cons x ks)
  obtain t j where x: "x = (t, j)" by (cases x)
  have skip': "\<And>c. obs i c = v \<Longrightarrow> i \<in> snd ` set ks \<Longrightarrow> get c i = None"
    using Cons.prems(1) by simp
  show ?case
  proof (cases "get c j")
    case None
    with x Cons.IH [OF skip' Cons.prems(2,3)] show ?thesis by simp
  next
    case (Some q)
    from get [OF Cons.prems(2) Some] have id: "ProposalId q = j" .
    have "j \<noteq> i"
    proof
      assume "j = i"
      with Cons.prems(1) [OF Cons.prems(3)] x have "get c i = None" by simp
      with Some \<open>j = i\<close> show False by simp
    qed
    with id have o: "obs i (snd (cb c q)) = v"
      using frame [of q c] Cons.prems(3) by simp
    have k: "keys_ok (store (snd (cb c q)))"
      using keys [OF Cons.prems(2)] .
    obtain b c' where r: "cb c q = (b, c')" by (cases "cb c q")
    with cont [of c q] have b: "b = False" by simp
    from Cons.IH [OF skip' k o] x Some r b show ?thesis by simp
  qed
qed

text \<open>
  A drain that meets \<open>i\<close> once, the entry resolving to \<open>p\<close>: the view of \<open>i\<close> after the
  drain is the view after the callback on \<open>p\<close>, run in a context in which the view of
  \<open>i\<close> is still the one before the drain.
\<close>

lemma iterate_queue_hit:
  assumes cont: "\<And>c q. fst (cb c q) = False"
    and frame: "\<And>c q. ProposalId q \<noteq> i \<Longrightarrow> obs i (snd (cb c q)) = obs i c"
    and keys: "\<And>c q. keys_ok (store c) \<Longrightarrow> keys_ok (store (snd (cb c q)))"
    and get: "\<And>c j q. keys_ok (store c) \<Longrightarrow> get c j = Some q \<Longrightarrow> ProposalId q = j"
    and ks: "ks = pre @ (t, i) # post" "i \<notin> snd ` set pre" "i \<notin> snd ` set post"
    and found: "\<And>c. obs i c = v \<Longrightarrow> get c i = Some p"
    and c: "keys_ok (store c)" "obs i c = v"
  shows "\<exists>c1. obs i c1 = v \<and> keys_ok (store c1)
           \<and> obs i (iterate_queue get cb ks c) = obs i (snd (cb c1 p))
           \<and> keys_ok (store (iterate_queue get cb ks c))"
proof -
  let ?c1 = "iterate_queue get cb pre c"
  have 1: "obs i ?c1 = v \<and> keys_ok (store ?c1)"
    using ks(2) by (intro iterate_queue_frame [OF cont frame keys get _ c]) auto
  let ?c2 = "snd (cb ?c1 p)"
  have k2: "keys_ok (store ?c2)" using keys 1 by blast
  have g: "get ?c1 i = Some p" using found 1 by blast
  have 3: "obs i (iterate_queue get cb post ?c2) = obs i ?c2
           \<and> keys_ok (store (iterate_queue get cb post ?c2))"
    using ks(3) by (intro iterate_queue_frame [OF cont frame keys get _ k2 refl]) auto
  obtain b c' where r: "cb ?c1 p = (b, c')" by (cases "cb ?c1 p")
  with cont [of ?c1 p] have b: "b = False" by simp
  have "iterate_queue get cb ks c = iterate_queue get cb post ?c2"
    using g r b by (simp add: ks(1) iterate_queue_append [OF cont])
  with 1 3 show ?thesis by auto
qed

lemma GetProposal_id:
  "keys_ok (store c) \<Longrightarrow> GetProposal c j = Some q \<Longrightarrow> ProposalId q = j"
  "keys_ok (store c) \<Longrightarrow> GetProposalV2 c j = Some q2 \<Longrightarrow> ProposalId q2 = j"
  by (auto simp add: keys_ok_def GetProposal_def GetProposalV2_def)

lemma GetProposal_obs:
  "GetProposal c i = o_proposal (obs i c)" "GetProposalV2 c i = o_proposalV2 (obs i c)"
  by (simp_all add: GetProposal_def GetProposalV2_def obs_def)

lemma queue_times_Nil: "queue_times i q = [] \<longleftrightarrow> i \<notin> snd ` set q"
  by (auto simp add: queue_times_def filter_empty_conv image_iff)

lemma due_keys_ids: "snd ` set (due_keys bt q) \<subseteq> snd ` set q"
  by (auto simp add: due_keys_def)

lemma queue_times_split:
  assumes "queue_times i q = [t]"
  shows "\<exists>pre post. q = pre @ (t, i) # post \<and> i \<notin> snd ` set pre \<and> i \<notin> snd ` set post"
proof -
  from assms obtain x where f: "filter (\<lambda>(t, j). j = i) q = [x]" and x: "fst x = t"
    by (auto simp add: queue_times_def map_eq_Cons_conv)
  from f obtain pre post where q: "q = pre @ x # post"
    and pre: "\<forall>u \<in> set pre. \<not> (case u of (t, j) \<Rightarrow> j = i)"
    and px: "case x of (t, j) \<Rightarrow> j = i"
    and post: "filter (\<lambda>(t, j). j = i) post = []"
    by (auto simp add: filter_eq_Cons_iff)
  from px x have "x = (t, i)" by (cases x) simp
  moreover from pre have "i \<notin> snd ` set pre" by force
  moreover from post have "i \<notin> snd ` set post"
    by (force simp add: filter_empty_conv)
  ultimately show ?thesis using q by blast
qed

lemma due_keys_split:
  assumes "queue_times i q = [t]" "t \<le> bt"
  shows "\<exists>pre post. due_keys bt q = pre @ (t, i) # post
           \<and> i \<notin> snd ` set pre \<and> i \<notin> snd ` set post"
proof -
  from queue_times_split [OF assms(1)] obtain pre post where
    q: "q = pre @ (t, i) # post" and n: "i \<notin> snd ` set pre" "i \<notin> snd ` set post"
    by blast
  have "due_keys bt q = due_keys bt pre @ (t, i) # due_keys bt post"
    using assms(2) by (simp add: q due_keys_def)
  moreover have "i \<notin> snd ` set (due_keys bt pre)" "i \<notin> snd ` set (due_keys bt post)"
    using n due_keys_ids by blast+
  ultimately show ?thesis by blast
qed

lemma drain_frame:
  assumes cont: "\<And>c q. fst (cb c q) = False"
    and frame: "\<And>c q. ProposalId q \<noteq> i \<Longrightarrow> obs i (snd (cb c q)) = obs i c"
    and keys: "\<And>c q. keys_ok (store c) \<Longrightarrow> keys_ok (store (snd (cb c q)))"
    and get: "\<And>c j q. keys_ok (store c) \<Longrightarrow> get c j = Some q \<Longrightarrow> ProposalId q = j"
    and skip: "queue_times i q = [] \<or> (\<forall>c. obs i c = v \<longrightarrow> get c i = None)"
    and c: "keys_ok (store c)" "obs i c = v"
  shows "obs i (iterate_queue get cb (due_keys bt q) c) = v
       \<and> keys_ok (store (iterate_queue get cb (due_keys bt q) c))"
proof (rule iterate_queue_frame [where cb = cb and get = get and i = i and v = v,
    OF cont frame keys get _ c])
  fix c' assume "obs i c' = v" and "i \<in> snd ` set (due_keys bt q)"
  with skip due_keys_ids [of bt q] show "get c' i = None"
    by (auto simp add: queue_times_Nil)
qed

lemma drain_hit:
  assumes cont: "\<And>c q. fst (cb c q) = False"
    and frame: "\<And>c q. ProposalId q \<noteq> i \<Longrightarrow> obs i (snd (cb c q)) = obs i c"
    and keys: "\<And>c q. keys_ok (store c) \<Longrightarrow> keys_ok (store (snd (cb c q)))"
    and get: "\<And>c j q. keys_ok (store c) \<Longrightarrow> get c j = Some q \<Longrightarrow> ProposalId q = j"
    and due: "queue_times i q = [t]" "t \<le> bt"
    and found: "\<And>c. obs i c = v \<Longrightarrow> get c i = Some p"
    and c: "keys_ok (store c)" "obs i c = v"
  shows "\<exists>c1. obs i c1 = v \<and> keys_ok (store c1)
           \<and> obs i (iterate_queue get cb (due_keys bt q) c) = obs i (snd (cb c1 p))
           \<and> keys_ok (store (iterate_queue get cb (due_keys bt q) c))"
proof -
  from due_keys_split [OF due] obtain pre post where
    s: "due_keys bt q = pre @ (t, i) # post" "i \<notin> snd ` set pre" "i \<notin> snd ` set post"
    by blast
  show ?thesis
    by (rule iterate_queue_hit [where cb = cb and get = get and pre = pre and post = post
          and t = t and i = i and v = v and p = p, OF cont frame keys get s found c])
qed

lemma active_cb_frame:
  assumes "handlers_keep_gov k"
  shows "ProposalId p \<noteq> i \<Longrightarrow> obs i (snd (active_proposal_cb k c p)) = obs i c"
    and "ProposalId p2 \<noteq> i \<Longrightarrow> obs i (snd (active_proposal_cb_V2 k c p2)) = obs i c"
  using active_cb_view [OF assms, of c p] active_cb_V2_view [OF assms, of c p2] by auto

lemma active_cb_keys:
  assumes "handlers_keep_gov k" "keys_ok (store c)"
  shows "keys_ok (store (snd (active_proposal_cb k c p)))"
    and "keys_ok (store (snd (active_proposal_cb_V2 k c p2)))"
  using active_cb_view [OF assms(1), of c p] active_cb_V2_view [OF assms(1), of c p2] assms(2)
  by auto

lemma inactive_cb_frame:
  "ProposalId p \<noteq> i \<Longrightarrow> obs i (snd (inactive_proposal_cb k c p)) = obs i c"
  "ProposalId p2 \<noteq> i \<Longrightarrow> obs i (snd (inactive_proposal_cb_V2 k c p2)) = obs i c"
  by (simp_all add: obs_inactive_cb obs_inactive_cb_V2)

lemma obs_queues:
  "queue_times i (InactiveProposalQueue (store c)) = o_inactive (obs i c)"
  "queue_times i (ActiveProposalQueue (store c)) = o_active (obs i c)"
  by (simp_all add: obs_def)

text \<open>The four drains, when they do not meet \<open>i\<close>.\<close>

lemma drain1_frame:
  assumes "keys_ok (store c)" "o_inactive (obs i c) = [] \<or> o_proposal (obs i c) = None"
  shows "obs i (IterateInactiveProposalsQueue c bt (inactive_proposal_cb k)) = obs i c
       \<and> keys_ok (store (IterateInactiveProposalsQueue c bt (inactive_proposal_cb k)))"
  unfolding IterateInactiveProposalsQueue_def
  using assms(2)
  by (intro drain_frame [where v = "obs i c", OF _ _ _ _ _ assms(1) refl])
     (auto simp add: inactive_cb_frame keys_ok_inactive_cb GetProposal_id obs_queues
        GetProposal_obs)

lemma drain3_frame:
  assumes "keys_ok (store c)" "o_inactive (obs i c) = [] \<or> o_proposalV2 (obs i c) = None"
  shows "obs i (IterateInactiveProposalsQueueV2 c bt (inactive_proposal_cb_V2 k)) = obs i c
       \<and> keys_ok (store (IterateInactiveProposalsQueueV2 c bt (inactive_proposal_cb_V2 k)))"
  unfolding IterateInactiveProposalsQueueV2_def
  using assms(2)
  by (intro drain_frame [where v = "obs i c", OF _ _ _ _ _ assms(1) refl])
     (auto simp add: inactive_cb_frame keys_ok_inactive_cb GetProposal_id obs_queues
        GetProposal_obs)

lemma drain2_frame:
  assumes "handlers_keep_gov k" "keys_ok (store c)"
    "o_active (obs i c) = [] \<or> o_proposal (obs i c) = None"
  shows "obs i (IterateActiveProposalsQueue c bt (active_proposal_cb k)) = obs i c
       \<and> keys_ok (store (IterateActiveProposalsQueue c bt (active_proposal_cb k)))"
  unfolding IterateActiveProposalsQueue_def
  using assms(3)
  by (intro drain_frame [where v = "obs i c", OF _ _ _ _ _ assms(2) refl])
     (auto simp add: active_cb_frame [OF assms(1)] active_cb_keys [OF assms(1)]
        GetProposal_id obs_queues GetProposal_obs)

lemma drain4_frame:
  assumes "handlers_keep_gov k" "keys_ok (store c)"
    "o_active (obs i c) = [] \<or> o_proposalV2 (obs i c) = None"
  shows "obs i (IterateActiveProposalsQueueV2 c bt (active_proposal_cb_V2 k)) = obs i c
       \<and> keys_ok (store (IterateActiveProposalsQueueV2 c bt (active_proposal_cb_V2 k)))"
  unfolding IterateActiveProposalsQueueV2_def
  using assms(3)
  by (intro drain_frame [where v = "obs i c", OF _ _ _ _ _ assms(2) refl])
     (auto simp add: active_cb_frame [OF assms(1)] active_cb_keys [OF assms(1)]
        GetProposal_id obs_queues GetProposal_obs)

lemma stored_id:
  "keys_ok (store c) \<Longrightarrow> o_proposal (obs i c) = Some p \<Longrightarrow> ProposalId p = i"
  "keys_ok (store c) \<Longrightarrow> o_proposalV2 (obs i c) = Some p2 \<Longrightarrow> ProposalId p2 = i"
  by (auto simp add: keys_ok_def obs_def)

text \<open>The four drains, when they meet \<open>i\<close>.\<close>

lemma drain1_hit:
  assumes k: "keys_ok (store c)" and p: "o_proposal (obs i c) = Some p"
    and due: "o_inactive (obs i c) = [t]" "t \<le> bt"
  shows "obs i (IterateInactiveProposalsQueue c bt (inactive_proposal_cb k)) =
           dropped_view i (obs i c)
       \<and> keys_ok (store (IterateInactiveProposalsQueue c bt (inactive_proposal_cb k)))"
proof -
  have "\<exists>c1. obs i c1 = obs i c \<and> keys_ok (store c1)
          \<and> obs i (iterate_queue GetProposal (inactive_proposal_cb k)
                (due_keys bt (InactiveProposalQueue (store c))) c)
              = obs i (snd (inactive_proposal_cb k c1 p))
          \<and> keys_ok (store (iterate_queue GetProposal (inactive_proposal_cb k)
                (due_keys bt (InactiveProposalQueue (store c))) c))"
    using p due
    by (intro drain_hit [where v = "obs i c" and t = t, OF _ _ _ _ _ _ _ k refl])
       (auto simp add: inactive_cb_frame keys_ok_inactive_cb GetProposal_id obs_queues
          GetProposal_obs)
  with stored_id(1) [OF k p] show ?thesis
    by (auto simp add: IterateInactiveProposalsQueue_def obs_inactive_cb dropped_view_def)
qed

lemma drain3_hit:
  assumes k: "keys_ok (store c)" and p: "o_proposalV2 (obs i c) = Some p"
    and due: "o_inactive (obs i c) = [t]" "t \<le> bt"
  shows "obs i (IterateInactiveProposalsQueueV2 c bt (inactive_proposal_cb_V2 k)) =
           dropped_view i (obs i c)
       \<and> keys_ok (store (IterateInactiveProposalsQueueV2 c bt (inactive_proposal_cb_V2 k)))"
proof -
  have "\<exists>c1. obs i c1 = obs i c \<and> keys_ok (store c1)
          \<and> obs i (iterate_queue GetProposalV2 (inactive_proposal_cb_V2 k)
                (due_keys bt (InactiveProposalQueue (store c))) c)
              = obs i (snd (inactive_proposal_cb_V2 k c1 p))
          \<and> keys_ok (store (iterate_queue GetProposalV2 (inactive_proposal_cb_V2 k)
                (due_keys bt (InactiveProposalQueue (store c))) c))"
    using p due
    by (intro drain_hit [where v = "obs i c" and t = t, OF _ _ _ _ _ _ _ k refl])
       (auto simp add: inactive_cb_frame keys_ok_inactive_cb GetProposal_id obs_queues
          GetProposal_obs)
  with stored_id(2) [OF k p] show ?thesis
    by (auto simp add: IterateInactiveProposalsQueueV2_def obs_inactive_cb_V2 dropped_view_def)
qed

lemma drain2_hit:
  assumes h: "handlers_keep_gov k"
    and k: "keys_ok (store c)" and p: "o_proposal (obs i c) = Some p"
    and due: "o_active (obs i c) = [t]" "t \<le> bt"
  shows "\<exists>st tr b. (st = StatusPassed \<or> st = StatusRejected \<or> st = StatusFailed)
       \<and> obs i (IterateActiveProposalsQueue c bt (active_proposal_cb k)) =
           (resolved_view i (obs i c) b (VotingEndTime p) st)
             \<lparr>o_proposal := Some (p\<lparr>Status := st, FinalTallyResult := tr\<rparr>)\<rparr>
       \<and> keys_ok (store (IterateActiveProposalsQueue c bt (active_proposal_cb k)))"
proof -
  have "\<exists>c1. obs i c1 = obs i c \<and> keys_ok (store c1)
          \<and> obs i (iterate_queue GetProposal (active_proposal_cb k)
                (due_keys bt (ActiveProposalQueue (store c))) c)
              = obs i (snd (active_proposal_cb k c1 p))
          \<and> keys_ok (store (iterate_queue GetProposal (active_proposal_cb k)
                (due_keys bt (ActiveProposalQueue (store c))) c))"
    using p due
    by (intro drain_hit [where v = "obs i c" and t = t, OF _ _ _ _ _ _ _ k refl])
       (auto simp add: active_cb_frame [OF h] active_cb_keys [OF h] GetProposal_id
          obs_queues GetProposal_obs)
  then obtain c1 where c1: "obs i c1 = obs i c"
    and r: "obs i (IterateActiveProposalsQueue c bt (active_proposal_cb k))
              = obs i (snd (active_proposal_cb k c1 p))"
    and ks: "keys_ok (store (IterateActiveProposalsQueue c bt (active_proposal_cb k)))"
    by (auto simp add: IterateActiveProposalsQueue_def)
  from active_cb_view [OF h, of c1 p] obtain st tr b where
    st: "st = StatusPassed \<or> st = StatusRejected \<or> st = StatusFailed"
    and v: "\<forall>i. obs i (snd (active_proposal_cb k c1 p)) =
              (if i = ProposalId p
               then (resolved_view i (obs i c1) b (VotingEndTime p) st)
                      \<lparr>o_proposal := Some (p\<lparr>Status := st, FinalTallyResult := tr\<rparr>)\<rparr>
               else obs i c1)"
    by blast
  from v stored_id(1) [OF k p] c1 r
  have "obs i (IterateActiveProposalsQueue c bt (active_proposal_cb k)) =
          (resolved_view i (obs i c) b (VotingEndTime p) st)
            \<lparr>o_proposal := Some (p\<lparr>Status := st, FinalTallyResult := tr\<rparr>)\<rparr>"
    by simp
  with st ks show ?thesis by blast
qed

lemma drain4_hit:
  assumes h: "handlers_keep_gov k"
    and k: "keys_ok (store c)" and p: "o_proposalV2 (obs i c) = Some p"
    and due: "o_active (obs i c) = [t]" "t \<le> bt"
  shows "\<exists>st tr b. (st = StatusPassed \<or> st = StatusRejected \<or> st = StatusFailed)
       \<and> obs i (IterateActiveProposalsQueueV2 c bt (active_proposal_cb_V2 k)) =
           (resolved_view i (obs i c) b (VotingEndTime p) st)
             \<lparr>o_proposalV2 := Some (p\<lparr>Status := st, FinalTallyResult := tr\<rparr>)\<rparr>
       \<and> keys_ok (store (IterateActiveProposalsQueueV2 c bt (active_proposal_cb_V2 k)))"
proof -
  have "\<exists>c1. obs i c1 = obs i c \<and> keys_ok (store c1)
          \<and> obs i (iterate_queue GetProposalV2 (active_proposal_cb_V2 k)
                (due_keys bt (ActiveProposalQueue (store c))) c)
              = obs i (snd (active_proposal_cb_V2 k c1 p))
          \<and> keys_ok (store (iterate_queue GetProposalV2 (active_proposal_cb_V2 k)
                (due_keys bt (ActiveProposalQueue (store c))) c))"
    using p due
    by (intro drain_hit [where v = "obs i c" and t = t, OF _ _ _ _ _ _ _ k refl])
       (auto simp add: active_cb_frame [OF h] active_cb_keys [OF h] GetProposal_id
          obs_queues GetProposal_obs)
  then obtain c1 where c1: "obs i c1 = obs i c"
    and r: "obs i (IterateActiveProposalsQueueV2 c bt (active_proposal_cb_V2 k))
              = obs i (snd (active_proposal_cb_V2 k c1 p))"
    and ks: "keys_ok (store (IterateActiveProposalsQueueV2 c bt (active_proposal_cb_V2 k)))"
    by (auto simp add: IterateActiveProposalsQueueV2_def)
  from active_cb_V2_view [OF h, of c1 p] obtain st tr b where
    st: "st = StatusPassed \<or> st = StatusRejected \<or> st = StatusFailed"
    and v: "\<forall>i. obs i (snd (active_proposal_cb_V2 k c1 p)) =
              (if i = ProposalId p
               then (resolved_view i (obs i c1) b (VotingEndTime p) st)
                      \<lparr>o_proposalV2 := Some (p\<lparr>Status := st, FinalTallyResult := tr\<rparr>)\<rparr>
               else obs i c1)"
    by blast
  from v stored_id(2) [OF k p] c1 r
  have "obs i (IterateActiveProposalsQueueV2 c bt (active_proposal_cb_V2 k)) =
          (resolved_view i (obs i c) b (VotingEndTime p) st)
            \<lparr>o_proposalV2 := Some (p\<lparr>Status := st, FinalTallyResult := tr\<rparr>)\<rparr>"
    by simp
  with st ks show ?thesis by blast
qed

section \<open>One pass of the Block Driver\<close>

lemma obs_time: "BlockTime c = o_time (obs i c)"
  by (simp add: obs_def)

lemma EndBlocker_view_dropped_V1:
  assumes h: "handlers_keep_gov k" and k: "keys_ok (store ctx)"
    and p: "o_proposal (obs i ctx) = Some p"
    and due: "o_inactive (obs i ctx) = [t]" "t \<le> BlockTime ctx"
  shows "obs i (EndBlocker k ctx) = dropped_view i (obs i ctx)"
proof -
  let ?c1 = "IterateInactiveProposalsQueue ctx (BlockTime ctx) (inactive_proposal_cb k)"
  let ?c2 = "IterateActiveProposalsQueue ?c1 (BlockTime ?c1) (active_proposal_cb k)"
  let ?c3 = "IterateInactiveProposalsQueueV2 ?c2 (BlockTime ?c2) (inactive_proposal_cb_V2 k)"
  let ?c4 = "IterateActiveProposalsQueueV2 ?c3 (BlockTime ?c3) (active_proposal_cb_V2 k)"
  let ?v = "dropped_view i (obs i ctx)"
  have 1: "obs i ?c1 = ?v \<and> keys_ok (store ?c1)"
    using drain1_hit [OF k p due] .
  have 2: "obs i ?c2 = ?v \<and> keys_ok (store ?c2)"
    using drain2_frame [OF h, of ?c1 i] 1 by (simp add: dropped_view_def)
  have 3: "obs i ?c3 = ?v \<and> keys_ok (store ?c3)"
    using drain3_frame [of ?c2 i] 2 by (simp add: dropped_view_def)
  have 4: "obs i ?c4 = ?v"
    using drain4_frame [OF h, of ?c3 i] 3 by (simp add: dropped_view_def)
  then show ?thesis by (simp add: EndBlocker_def Let_def)
qed

lemma EndBlocker_view_dropped_V2:
  assumes h: "handlers_keep_gov k" and k: "keys_ok (store ctx)"
    and p: "o_proposalV2 (obs i ctx) = Some p" "o_proposal (obs i ctx) = None"
    and due: "o_inactive (obs i ctx) = [t]" "t \<le> BlockTime ctx" "o_active (obs i ctx) = []"
  shows "obs i (EndBlocker k ctx) = dropped_view i (obs i ctx)"
proof -
  let ?c1 = "IterateInactiveProposalsQueue ctx (BlockTime ctx) (inactive_proposal_cb k)"
  let ?c2 = "IterateActiveProposalsQueue ?c1 (BlockTime ?c1) (active_proposal_cb k)"
  let ?c3 = "IterateInactiveProposalsQueueV2 ?c2 (BlockTime ?c2) (inactive_proposal_cb_V2 k)"
  let ?c4 = "IterateActiveProposalsQueueV2 ?c3 (BlockTime ?c3) (active_proposal_cb_V2 k)"
  let ?v = "dropped_view i (obs i ctx)"
  have 1: "obs i ?c1 = obs i ctx \<and> keys_ok (store ?c1)"
    using drain1_frame [OF k, of i] p(2) by simp
  have 2: "obs i ?c2 = obs i ctx \<and> keys_ok (store ?c2)"
    using drain2_frame [OF h, of ?c1 i] 1 p(2) by simp
  have t: "t \<le> BlockTime ?c2"
    using due(2) 2 by (simp add: obs_time [of _ i])
  have 3: "obs i ?c3 = ?v \<and> keys_ok (store ?c3)"
    using drain3_hit [of ?c2 i p t "BlockTime ?c2" k] 2 p(1) due(1) t by simp
  have 4: "obs i ?c4 = ?v"
    using drain4_frame [OF h, of ?c3 i] 3 by (simp add: dropped_view_def)
  then show ?thesis by (simp add: EndBlocker_def Let_def)
qed

lemma EndBlocker_view_resolved_V1:
  assumes h: "handlers_keep_gov k" and k: "keys_ok (store ctx)"
    and p: "o_proposal (obs i ctx) = Some p"
    and due: "o_active (obs i ctx) = [VotingEndTime p]" "VotingEndTime p \<le> BlockTime ctx"
      "o_inactive (obs i ctx) = []"
  shows "\<exists>st tr b. (st = StatusPassed \<or> st = StatusRejected \<or> st = StatusFailed)
       \<and> obs i (EndBlocker k ctx) =
           (resolved_view i (obs i ctx) b (VotingEndTime p) st)
             \<lparr>o_proposal := Some (p\<lparr>Status := st, FinalTallyResult := tr\<rparr>)\<rparr>"
proof -
  let ?c1 = "IterateInactiveProposalsQueue ctx (BlockTime ctx) (inactive_proposal_cb k)"
  let ?c2 = "IterateActiveProposalsQueue ?c1 (BlockTime ?c1) (active_proposal_cb k)"
  let ?c3 = "IterateInactiveProposalsQueueV2 ?c2 (BlockTime ?c2) (inactive_proposal_cb_V2 k)"
  let ?c4 = "IterateActiveProposalsQueueV2 ?c3 (BlockTime ?c3) (active_proposal_cb_V2 k)"
  have 1: "obs i ?c1 = obs i ctx \<and> keys_ok (store ?c1)"
    using drain1_frame [OF k, of i] due(3) by simp
  have t: "VotingEndTime p \<le> BlockTime ?c1"
    using due(2) 1 by (simp add: obs_time [of _ i])
  from drain2_hit [OF h, of ?c1 i p "VotingEndTime p" "BlockTime ?c1"] 1 p due(1) t
  obtain st tr b where st: "st = StatusPassed \<or> st = StatusRejected \<or> st = StatusFailed"
    and 2: "obs i ?c2 = (resolved_view i (obs i ctx) b (VotingEndTime p) st)
              \<lparr>o_proposal := Some (p\<lparr>Status := st, FinalTallyResult := tr\<rparr>)\<rparr>"
       "keys_ok (store ?c2)"
    by auto
  have 3: "obs i ?c3 = obs i ?c2 \<and> keys_ok (store ?c3)"
    using drain3_frame [of ?c2 i] 2 due(3) by (simp add: resolved_view_def)
  have 4: "obs i ?c4 = obs i ?c2"
    using drain4_frame [OF h, of ?c3 i] 3 2 due(1) by (simp add: resolved_view_def)
  with 2(1) have "obs i (EndBlocker k ctx) =
      (resolved_view i (obs i ctx) b (VotingEndTime p) st)
        \<lparr>o_proposal := Some (p\<lparr>Status := st, FinalTallyResult := tr\<rparr>)\<rparr>"
    by (simp add: EndBlocker_def Let_def)
  with st show ?thesis by blast
qed

lemma EndBlocker_view_resolved_V2:
  assumes h: "handlers_keep_gov k" and k: "keys_ok (store ctx)"
    and p: "o_proposalV2 (obs i ctx) = Some p" "o_proposal (obs i ctx) = None"
    and due: "o_active (obs i ctx) = [VotingEndTime p]" "VotingEndTime p \<le> BlockTime ctx"
      "o_inactive (obs i ctx) = []"
  shows "\<exists>st tr b. (st = StatusPassed \<or> st = StatusRejected \<or> st = StatusFailed)
       \<and> obs i (EndBlocker k ctx) =
           (resolved_view i (obs i ctx) b (VotingEndTime p) st)
             \<lparr>o_proposalV2 := Some (p\<lparr>Status := st, FinalTallyResult := tr\<rparr>)\<rparr>"
proof -
  let ?c1 = "IterateInactiveProposalsQueue ctx (BlockTime ctx) (inactive_proposal_cb k)"
  let ?c2 = "IterateActiveProposalsQueue ?c1 (BlockTime ?c1) (active_proposal_cb k)"
  let ?c3 = "IterateInactiveProposalsQueueV2 ?c2 (BlockTime ?c2) (inactive_proposal_cb_V2 k)"
  let ?c4 = "IterateActiveProposalsQueueV2 ?c3 (BlockTime ?c3) (active_proposal_cb_V2 k)"
  have 1: "obs i ?c1 = obs i ctx \<and> keys_ok (store ?c1)"
    using drain1_frame [OF k, of i] due(3) by simp
  have 2: "obs i ?c2 = obs i ctx \<and> keys_ok (store ?c2)"
    using drain2_frame [OF h, of ?c1 i] 1 p(2) by simp
  have 3: "obs i ?c3 = obs i ctx \<and> keys_ok (store ?c3)"
    using drain3_frame [of ?c2 i] 2 due(3) by simp
  have t: "VotingEndTime p \<le> BlockTime ?c3"
    using due(2) 3 by (simp add: obs_time [of _ i])
  from drain4_hit [OF h, of ?c3 i p "VotingEndTime p" "BlockTime ?c3"] 3 p(1) due(1) t
  obtain st tr b where st: "st = StatusPassed \<or> st = StatusRejected \<or> st = StatusFailed"
    and 4: "obs i ?c4 = (resolved_view i (obs i ctx) b (VotingEndTime p) st)
              \<lparr>o_proposalV2 := Some (p\<lparr>Status := st, FinalTallyResult := tr\<rparr>)\<rparr>"
    by auto
  then have "obs i (EndBlocker k ctx) =
      (resolved_view i (obs i ctx) b (VotingEndTime p) st)
        \<lparr>o_proposalV2 := Some (p\<lparr>Status := st, FinalTallyResult := tr\<rparr>)\<rparr>"
    by (simp add: EndBlocker_def Let_def)
  with st show ?thesis by blast
qed

lemma keeps_gov_app: "keeps_gov (\<lambda>s. s\<lparr>app := f s\<rparr>)"
  by (simp add: keeps_gov_def)

lemma demo_handler_scope_ok: "scope_ok c \<Longrightarrow> scope_ok (snd (demo_handler c body))"
  by (simp add: demo_handler_def scope_ok_def EmitEvent_def store_write_def Let_def
        keeps_gov_app is_gov_event_def EventTypeInactiveProposal_def EventTypeActiveProposal_def)

lemma demo_keeper_keeps_gov: "handlers_keep_gov demo_keeper"
  by (simp add: handlers_keep_gov_def demo_keeper_def demo_handler_scope_ok)

lemma store_mixed_keys_ok: "keys_ok (store (demo_ctx store_mixed))"
  by (simp add: keys_ok_def demo_ctx_def store_mixed_def empty_store_def demo_proposal_def
        demo_proposalV2_def genesis_proposal_def)

lemmas mixed_defs = demo_ctx_def store_mixed_def empty_store_def demo_proposal_def
  demo_proposalV2_def genesis_proposal_def demo_deposit_def demo_content_def empty_tally_def

lemma obs_project:
  "proposals (store c) i = o_proposal (obs i c)"
  "proposalsV2 (store c) i = o_proposalV2 (obs i c)"
  "queue_times i (InactiveProposalQueue (store c)) = o_inactive (obs i c)"
  "queue_times i (ActiveProposalQueue (store c)) = o_active (obs i c)"
  "deposits_of i (deposits (store c)) = o_deposits (obs i c)"
  "deposits_of i (burned (store c)) = o_burned (obs i c)"
  "deposits_of i (refunded (store c)) = o_refunded (obs i c)"
  "filter (\<lambda>h. hook_id h = i) (hook_calls (store c)) = o_hooks (obs i c)"
  "filter (gov_event_of i) (events c) = o_events (obs i c)"
  by (simp_all add: obs_def)

lemma resolved_from_view:
  assumes "st = StatusPassed \<or> st = StatusRejected \<or> st = StatusFailed"
    and "status_of (store ctx') i = Some st"
    and "o_events (obs i ctx') = o_events (obs i ctx) @ [terminal_event i st]"
    and "o_active (obs i ctx') = []"
  shows "resolved i ctx ctx'"
  using assms by (simp add: resolved_def obs_project)

text \<open>
  C7. A proposal in VotingPeriod whose voting end time is at or before the block time is
  resolved by one pass of \<open>EndBlocker\<close>. For a keeper whose payload handlers leave the
  governance state to the keeper, a store in which every proposal is stored under its
  own id, and a proposal \<open>p\<close> stored under \<open>i\<close> (V1, or V2 with no V1 proposal under
  \<open>i\<close>) whose queue entries match its status: after the pass the status of \<open>i\<close> is
  Passed, Rejected or Failed, \<open>i\<close> has no entry in the active queue, and the pass has
  emitted exactly one governance event carrying \<open>i\<close>: the terminal event with the tag
  of that status. The tally and the handlers are arbitrary: the handler of this or of
  any other proposal may fail.
\<close>

theorem voting_period_proposals_are_resolved:
  assumes h: "handlers_keep_gov keeper" and k: "keys_ok (store ctx)"
  shows "(\<forall>p. proposals (store ctx) i = Some p \<and> Status p = StatusVotingPeriod
             \<and> VotingEndTime p \<le> BlockTime ctx \<and> queues_match_status (store ctx) p
           \<longrightarrow> resolved i ctx (EndBlocker keeper ctx))
       \<and> (\<forall>p. proposalsV2 (store ctx) i = Some p \<and> proposals (store ctx) i = None
             \<and> Status p = StatusVotingPeriod
             \<and> VotingEndTime p \<le> BlockTime ctx \<and> queues_match_status (store ctx) p
           \<longrightarrow> resolved i ctx (EndBlocker keeper ctx))"
proof (intro conjI allI impI)
  fix p :: ProposalV1
  assume a: "proposals (store ctx) i = Some p \<and> Status p = StatusVotingPeriod
             \<and> VotingEndTime p \<le> BlockTime ctx \<and> queues_match_status (store ctx) p"
  then have p: "o_proposal (obs i ctx) = Some p" by (simp add: obs_def)
  from stored_id(1) [OF k p] have id: "ProposalId p = i" .
  from a id have q: "o_active (obs i ctx) = [VotingEndTime p]" "o_inactive (obs i ctx) = []"
    by (simp_all add: queues_match_status_def obs_def)
  from a have t: "VotingEndTime p \<le> BlockTime ctx" by simp
  from EndBlocker_view_resolved_V1 [OF h k p q(1) t q(2)]
  obtain st tr b where st: "st = StatusPassed \<or> st = StatusRejected \<or> st = StatusFailed"
    and v: "obs i (EndBlocker keeper ctx) =
              (resolved_view i (obs i ctx) b (VotingEndTime p) st)
                \<lparr>o_proposal := Some (p\<lparr>Status := st, FinalTallyResult := tr\<rparr>)\<rparr>"
    by blast
  have "status_of (store (EndBlocker keeper ctx)) i = Some st"
    by (simp add: status_of_def obs_project v)
  moreover have "o_events (obs i (EndBlocker keeper ctx)) =
      o_events (obs i ctx) @ [terminal_event i st]"
    by (simp add: v resolved_view_def)
  moreover have "o_active (obs i (EndBlocker keeper ctx)) = []"
    by (simp add: v resolved_view_def q)
  ultimately show "resolved i ctx (EndBlocker keeper ctx)"
    using st by (intro resolved_from_view)
next
  fix p :: ProposalV2
  assume a: "proposalsV2 (store ctx) i = Some p \<and> proposals (store ctx) i = None
             \<and> Status p = StatusVotingPeriod
             \<and> VotingEndTime p \<le> BlockTime ctx \<and> queues_match_status (store ctx) p"
  then have p: "o_proposalV2 (obs i ctx) = Some p" "o_proposal (obs i ctx) = None"
    by (simp_all add: obs_def)
  from stored_id(2) [OF k p(1)] have id: "ProposalId p = i" .
  from a id have q: "o_active (obs i ctx) = [VotingEndTime p]" "o_inactive (obs i ctx) = []"
    by (simp_all add: queues_match_status_def obs_def)
  from a have t: "VotingEndTime p \<le> BlockTime ctx" by simp
  from EndBlocker_view_resolved_V2 [OF h k p q(1) t q(2)]
  obtain st tr b where st: "st = StatusPassed \<or> st = StatusRejected \<or> st = StatusFailed"
    and v: "obs i (EndBlocker keeper ctx) =
              (resolved_view i (obs i ctx) b (VotingEndTime p) st)
                \<lparr>o_proposalV2 := Some (p\<lparr>Status := st, FinalTallyResult := tr\<rparr>)\<rparr>"
    by blast
  have "status_of (store (EndBlocker keeper ctx)) i = Some st"
    using p(2) by (simp add: status_of_def obs_project v resolved_view_def)
  moreover have "o_events (obs i (EndBlocker keeper ctx)) =
      o_events (obs i ctx) @ [terminal_event i st]"
    by (simp add: v resolved_view_def)
  moreover have "o_active (obs i (EndBlocker keeper ctx)) = []"
    by (simp add: v resolved_view_def q)
  ultimately show "resolved i ctx (EndBlocker keeper ctx)"
    using st by (intro resolved_from_view)
qed

theorem voting_period_proposals_are_resolved_witness:
  "resolved 3 (demo_ctx store_mixed) (EndBlocker demo_keeper (demo_ctx store_mixed))
   \<and> resolved 4 (demo_ctx store_mixed) (EndBlocker demo_keeper (demo_ctx store_mixed))
   \<and> resolved 7 (demo_ctx store_mixed) (EndBlocker demo_keeper (demo_ctx store_mixed))"
proof -
  let ?c = "demo_ctx store_mixed"
  note t = voting_period_proposals_are_resolved [OF demo_keeper_keeps_gov store_mixed_keys_ok]
  have "resolved 3 ?c (EndBlocker demo_keeper ?c)"
    by (rule t [of 3, THEN conjunct1, rule_format, of "demo_proposal ''upgrade''"])
       (simp add: mixed_defs queues_match_status_def queue_times_def)
  moreover have "resolved 4 ?c (EndBlocker demo_keeper ?c)"
    by (rule t [of 4, THEN conjunct1, rule_format,
          of "(demo_proposal ''fail'')\<lparr>ProposalId := 4, VotingEndTime := 9\<rparr>"])
       (simp add: mixed_defs queues_match_status_def queue_times_def)
  moreover have "resolved 7 ?c (EndBlocker demo_keeper ?c)"
    by (rule t [of 7, THEN conjunct2, rule_format, of demo_proposalV2])
       (simp add: mixed_defs queues_match_status_def queue_times_def)
  ultimately show ?thesis by simp
qed

lemma dropped_from_view:
  assumes "obs i ctx' = dropped_view i (obs i ctx)"
    and "sum_list (map Amount (o_deposits (obs i ctx))) = amount"
  shows "dropped i amount ctx ctx'"
  using assms by (simp add: dropped_def obs_project dropped_view_def)

text \<open>
  C6. A proposal in DepositPeriod whose deposit end time is at or before the block time
  is dropped by one pass of \<open>EndBlocker\<close>. For a keeper whose payload handlers leave the
  governance state to the keeper, a store in which every proposal is stored under its
  own id, and a proposal \<open>p\<close> stored under \<open>i\<close> (V1, or V2 with no V1 proposal under
  \<open>i\<close>) whose queue entries match its status and whose deposits sum to its total
  deposit: after the pass no proposal and no deposit of \<open>i\<close> exists, what was burned
  for \<open>i\<close> during the pass is its total deposit (each of its deposits once), nothing
  was refunded for it, one Dropped event carrying \<open>i\<close> was emitted and the hook of the
  inactive proposals was called for \<open>i\<close> once.
\<close>

theorem deposit_period_proposals_are_dropped:
  assumes h: "handlers_keep_gov keeper" and k: "keys_ok (store ctx)"
  shows "(\<forall>p. proposals (store ctx) i = Some p \<and> Status p = StatusDepositPeriod
             \<and> DepositEndTime p \<le> BlockTime ctx \<and> queues_match_status (store ctx) p
             \<and> sum_list (map Amount (deposits_of i (deposits (store ctx)))) = TotalDeposit p
           \<longrightarrow> dropped i (TotalDeposit p) ctx (EndBlocker keeper ctx))
       \<and> (\<forall>p. proposalsV2 (store ctx) i = Some p \<and> proposals (store ctx) i = None
             \<and> Status p = StatusDepositPeriod
             \<and> DepositEndTime p \<le> BlockTime ctx \<and> queues_match_status (store ctx) p
             \<and> sum_list (map Amount (deposits_of i (deposits (store ctx)))) = TotalDeposit p
           \<longrightarrow> dropped i (TotalDeposit p) ctx (EndBlocker keeper ctx))"
proof (intro conjI allI impI)
  fix p :: ProposalV1
  assume a: "proposals (store ctx) i = Some p \<and> Status p = StatusDepositPeriod
             \<and> DepositEndTime p \<le> BlockTime ctx \<and> queues_match_status (store ctx) p
             \<and> sum_list (map Amount (deposits_of i (deposits (store ctx)))) = TotalDeposit p"
  then have p: "o_proposal (obs i ctx) = Some p" by (simp add: obs_def)
  from stored_id(1) [OF k p] have id: "ProposalId p = i" .
  from a id have q: "o_inactive (obs i ctx) = [DepositEndTime p]"
    by (simp add: queues_match_status_def obs_def)
  from a have t: "DepositEndTime p \<le> BlockTime ctx" by simp
  from a have s: "sum_list (map Amount (o_deposits (obs i ctx))) = TotalDeposit p"
    by (simp add: obs_def)
  from EndBlocker_view_dropped_V1 [OF h k p q t] s
  show "dropped i (TotalDeposit p) ctx (EndBlocker keeper ctx)"
    by (rule dropped_from_view)
next
  fix p :: ProposalV2
  assume a: "proposalsV2 (store ctx) i = Some p \<and> proposals (store ctx) i = None
             \<and> Status p = StatusDepositPeriod
             \<and> DepositEndTime p \<le> BlockTime ctx \<and> queues_match_status (store ctx) p
             \<and> sum_list (map Amount (deposits_of i (deposits (store ctx)))) = TotalDeposit p"
  then have p: "o_proposalV2 (obs i ctx) = Some p" "o_proposal (obs i ctx) = None"
    by (simp_all add: obs_def)
  from stored_id(2) [OF k p(1)] have id: "ProposalId p = i" .
  from a id have q: "o_inactive (obs i ctx) = [DepositEndTime p]" "o_active (obs i ctx) = []"
    by (simp_all add: queues_match_status_def obs_def)
  from a have t: "DepositEndTime p \<le> BlockTime ctx" by simp
  from a have s: "sum_list (map Amount (o_deposits (obs i ctx))) = TotalDeposit p"
    by (simp add: obs_def)
  from EndBlocker_view_dropped_V2 [OF h k p q(1) t q(2)] s
  show "dropped i (TotalDeposit p) ctx (EndBlocker keeper ctx)"
    by (rule dropped_from_view)
qed

theorem deposit_period_proposals_are_dropped_witness:
  "dropped 1 {#''stake''#} (demo_ctx store_mixed) (EndBlocker demo_keeper (demo_ctx store_mixed))
   \<and> dropped 8 {#''stake''#} (demo_ctx store_mixed) (EndBlocker demo_keeper (demo_ctx store_mixed))"
proof -
  let ?c = "demo_ctx store_mixed"
  note t = deposit_period_proposals_are_dropped [OF demo_keeper_keeps_gov store_mixed_keys_ok]
  have "dropped 1 (TotalDeposit (genesis_proposal 1 StatusDepositPeriod 5 0 demo_content))
          ?c (EndBlocker demo_keeper ?c)"
    by (rule t [of 1, THEN conjunct1, rule_format])
       (simp add: mixed_defs queues_match_status_def queue_times_def deposits_of_def)
  moreover
  have "dropped 8 (TotalDeposit (genesis_proposal 8 StatusDepositPeriod 6 0 [''m2'']))
          ?c (EndBlocker demo_keeper ?c)"
    by (rule t [of 8, THEN conjunct2, rule_format])
       (simp add: mixed_defs queues_match_status_def queue_times_def deposits_of_def)
  ultimately show ?thesis by (simp add: genesis_proposal_def)
qed
section \<open>Further properties of the two passes\<close>

text \<open>
  An unjail request in the loop of \<open>ExecuteEpoch\<close>. Its handler runs in the scope.
  When it returns nil, the scope's buffered writes are replayed on the base store (the
  event it emitted in the scope is not added to the base event log); when it returns an
  error, nothing of the scope reaches the base context. In both cases the action is
  then deleted from the queue and the loop goes on with the next one.
\<close>

theorem unjail_action_commit_or_discard:
  "ExecuteEpoch_loop k ((key, UnjailAction m) # rest) ctx =
     (case executeQueuedUnjailMsg k (CacheContext ctx) m of
        (None, cacheCtx') \<Rightarrow>
          ExecuteEpoch_loop k rest
            (DeleteByKey
               (ctx\<lparr>store := fold (\<lambda>f s. f s) (buffered cacheCtx') (store ctx),
                     buffered := buffered ctx @ buffered cacheCtx'\<rparr>) key)
      | (Some err, cacheCtx') \<Rightarrow> ExecuteEpoch_loop k rest (DeleteByKey ctx key))"
  by (simp add: writeCache_eq split: prod.splits option.splits)

text \<open>
  A V1 proposal that passes the tally and whose content handler fails. The
  proposal is stored with status Failed and the tally; its deposits are gone from the
  store, burned or refunded as the tally said; the terminal event carries the tag of
  Failed; and the error text is in the log line only: but for the log, the context is
  the one the callback leaves with an empty log message.
\<close>

theorem failed_content_is_marked_failed:
  assumes "Tally keeper ctx (ProposalId proposal) = (True, burnDeposits, tallyResults)"
    and "base = settle_deposits ctx (ProposalId proposal) burnDeposits"
    and "GetRoute keeper (ProposalRoute (Payload proposal)) (CacheContext base) (Payload proposal)
           = (Some err, cacheCtx')"
    and "ctx' = snd (active_proposal_cb keeper ctx proposal)"
  shows "proposals (store ctx') (ProposalId proposal) =
           Some (proposal\<lparr>Status := StatusFailed, FinalTallyResult := tallyResults\<rparr>)
       \<and> deposits_of (ProposalId proposal) (deposits (store ctx')) = []
       \<and> deposits_of (ProposalId proposal) (if burnDeposits then burned (store ctx')
                                             else refunded (store ctx')) =
           deposits_of (ProposalId proposal) (if burnDeposits then burned (store ctx)
                                             else refunded (store ctx))
           @ deposits_of (ProposalId proposal) (deposits (store ctx))
       \<and> events ctx' = events ctx @ [terminal_event (ProposalId proposal) StatusFailed]
       \<and> logged ctx' = logged ctx @
           [(''proposal tallied'',
             [(''proposal'', LNat (ProposalId proposal)),
              (''title'', LStr (GetTitle (Payload proposal))),
              (''result'', LStr (''passed, but failed on execution: '' @ error_text err))])]
       \<and> ctx'\<lparr>logged := []\<rparr> =
           (snd (conclude_proposal base (proposal\<lparr>Status := StatusFailed\<rparr>) tallyResults
                   AttributeValueProposalFailed []))\<lparr>logged := []\<rparr>"
proof -
  have r: "active_proposal_cb keeper ctx proposal =
      conclude_proposal base (proposal\<lparr>Status := StatusFailed\<rparr>) tallyResults
        AttributeValueProposalFailed
        (''passed, but failed on execution: '' @ error_text err)"
    using assms(1-3) by (simp add: active_proposal_cb_def execute_content_err)
  show ?thesis
    unfolding assms(4) r assms(2)
    by (simp add: conclude_proposal_def Let_def settle_deposits_def SetProposal_def
          RemoveFromActiveProposalQueue_def AfterProposalVotingPeriodEnded_def
          DeleteAndBurnDeposits_def RefundAndDeleteDeposits_def
          logger_Info_def EmitEvent_def store_write_def terminal_event_def status_tag_def
          view_simps)
qed

theorem failed_content_is_marked_failed_witness:
  "map_option Status (proposals (store (snd (active_proposal_cb demo_keeper
        (demo_ctx (store_V1 ''fail'')) (demo_proposal ''fail'')))) 3) = Some StatusFailed
   \<and> deposits_of 3 (refunded (store (snd (active_proposal_cb demo_keeper
        (demo_ctx (store_V1 ''fail'')) (demo_proposal ''fail''))))) =
       [\<lparr>DepositProposalId = 3, Depositor = ''alice'', Amount = {#''stake''#}\<rparr>]
   \<and> events (snd (active_proposal_cb demo_keeper
        (demo_ctx (store_V1 ''fail'')) (demo_proposal ''fail''))) =
       [terminal_event 3 StatusFailed]"
proof -
  let ?c = "demo_ctx (store_V1 ''fail'')" and ?p = "demo_proposal ''fail''"
  let ?c' = "snd (active_proposal_cb demo_keeper ?c ?p)"
  have t: "Tally demo_keeper ?c (ProposalId ?p) = (True, False, demo_tally)"
    by (simp add: demo_keeper_def)
  obtain cc where h: "GetRoute demo_keeper (ProposalRoute (Payload ?p))
      (CacheContext (settle_deposits ?c (ProposalId ?p) False)) (Payload ?p)
        = (Some (Err ''boom''), cc)"
    by (simp add: demo_keeper_def demo_handler_def demo_proposal_def)
  have id: "ProposalId ?p = 3" by (simp add: demo_proposal_def)
  note f = failed_content_is_marked_failed [OF t refl h refl, unfolded id]
  have "proposals (store ?c') 3 =
      Some (?p\<lparr>Status := StatusFailed, FinalTallyResult := demo_tally\<rparr>)"
    using f by blast
  moreover have "deposits_of 3 (refunded (store ?c')) =
      deposits_of 3 (refunded (store ?c)) @ deposits_of 3 (deposits (store ?c))"
    using f by simp
  moreover have "events ?c' = events ?c @ [terminal_event 3 StatusFailed]"
    using f by blast
  ultimately show ?thesis
    by (simp add: deposits_of_def demo_ctx_def store_V1_def empty_store_def)
qed

end
